theory Spec2Isabelle
  imports Main
begin

section \<open>Python values, exceptions and effects\<close>

text \<open>
  The module \<^verbatim>\<open>configuration_manager.py\<close> keeps its data in module-level dictionaries
  and signals failure with exceptions. A function of the module is modelled as a function
  from the state to a result and the state it leaves: the result is \<open>Inl e\<close> when the
  Python code raises \<open>e\<close>, and the state returned with it holds every mutation made before
  the raise.
\<close>

datatype error =
  KeyError | ValueError | TypeError | AttributeError | OverflowError
  | SyntaxError | ParsingError | IOError

type_synonym ('a, 's) prog = "'s \<Rightarrow> (error + 'a) \<times> 's"

definition ret :: "'a \<Rightarrow> ('a, 's) prog" where
  "ret a s = (Inr a, s)"

definition raise :: "error \<Rightarrow> ('a, 's) prog" where
  "raise e s = (Inl e, s)"

definition and_then :: "('a, 's) prog \<Rightarrow> ('a \<Rightarrow> ('b, 's) prog) \<Rightarrow> ('b, 's) prog" where
  "and_then m f s = (case m s of (Inl e, s') \<Rightarrow> (Inl e, s') | (Inr a, s') \<Rightarrow> f a s')"

text \<open>\<^verbatim>\<open>try: m except KeyError: h\<close>: only a \<open>KeyError\<close> reaches the handler.\<close>

definition except_KeyError :: "('a, 's) prog \<Rightarrow> ('a, 's) prog \<Rightarrow> ('a, 's) prog" where
  "except_KeyError m h s =
     (case m s of (Inl KeyError, s') \<Rightarrow> h s' | (Inl e, s') \<Rightarrow> (Inl e, s') | (Inr a, s') \<Rightarrow> (Inr a, s'))"

section \<open>Strings\<close>

text \<open>\<^verbatim>\<open>str.strip\<close> removes the ASCII whitespace characters from both ends.\<close>

definition is_space :: "char \<Rightarrow> bool" where
  "is_space c = (c \<in> set [CHR '' '', CHR 0x09, CHR 0x0A, CHR 0x0B, CHR 0x0C, CHR 0x0D])"

definition strip :: "string \<Rightarrow> string" where
  "strip s = rev (dropWhile is_space (rev (dropWhile is_space s)))"

text \<open>\<^verbatim>\<open>s.split(d)\<close> for a one-character delimiter: one more part than delimiters.\<close>

fun str_split :: "char \<Rightarrow> string \<Rightarrow> string list" where
  "str_split d [] = [[]]"
| "str_split d (c # cs) =
     (if c = d then [] # str_split d cs
      else (case str_split d cs of [] \<Rightarrow> [[c]] | p # ps \<Rightarrow> (c # p) # ps))"

text \<open>\<^verbatim>\<open>d.join(parts)\<close>.\<close>

fun str_join :: "char \<Rightarrow> string list \<Rightarrow> string" where
  "str_join d [] = []"
| "str_join d [p] = p"
| "str_join d (p # q # ps) = p @ d # str_join d (q # ps)"

text \<open>\<^verbatim>\<open>x in s\<close> for two strings: \<open>x\<close> occurs in \<open>s\<close> as a substring.\<close>

fun is_substring :: "string \<Rightarrow> string \<Rightarrow> bool" where
  "is_substring x [] = (x = [])"
| "is_substring x (c # cs) = (take (length x) (c # cs) = x \<or> is_substring x cs)"

text \<open>
  \<^verbatim>\<open>_as_list(list_str, delimiter=',')\<close>:
  \<^verbatim>\<open>[str.strip(item) for item in list_str.split(delimiter)]\<close>.
\<close>

definition as_list :: "string \<Rightarrow> char \<Rightarrow> string list" where
  "as_list list_str delimiter = map strip (str_split delimiter list_str)"

text \<open>
  \<^verbatim>\<open>int(s)\<close> on a string: whitespace around it is ignored, one sign is allowed, and the
  rest must be one or more decimal digits; anything else raises \<open>ValueError\<close> (\<open>None\<close>
  here).
\<close>

definition is_digit :: "char \<Rightarrow> bool" where
  "is_digit c = (c \<in> set ''0123456789'')"

definition digit_val :: "char \<Rightarrow> nat" where
  "digit_val c = of_char c - 48"

definition digits_val :: "string \<Rightarrow> nat" where
  "digits_val ds = foldl (\<lambda>n c. 10 * n + digit_val c) 0 ds"

definition py_digits :: "string \<Rightarrow> nat option" where
  "py_digits ds = (if ds \<noteq> [] \<and> list_all is_digit ds then Some (digits_val ds) else None)"

definition py_int :: "string \<Rightarrow> int option" where
  "py_int s =
     (case strip s of
        [] \<Rightarrow> None
      | c # cs \<Rightarrow>
          if c = CHR ''-'' then map_option (\<lambda>n. - int n) (py_digits cs)
          else if c = CHR ''+'' then map_option int (py_digits cs)
          else map_option int (py_digits (c # cs)))"

section \<open>The SMS configuration: \<^verbatim>\<open>sms()\<close>\<close>

text \<open>
  \<^verbatim>\<open>_SMS_CONFIG\<close> is one dictionary holding values of several Python types under string
  keys: the raw option strings of the \<^verbatim>\<open>sms\<close> section (\<open>None\<close> for an option without a
  value, since the parser is created with \<^verbatim>\<open>allow_no_value=True\<close>), the lists that
  \<^verbatim>\<open>sms()\<close> puts in their place, and the dictionary \<^verbatim>\<open>throttled_groups\<close>.
\<close>

datatype cfgval =
  CNone
  | CStr string
  | CList "string list"
  | CThrottled "string \<rightharpoonup> (string \<rightharpoonup> int)"

text \<open>
  The module globals the permission code reads and writes, and the messages it has passed
  to \<^verbatim>\<open>warnings.warn\<close>, in order.
\<close>

record globals =
  SMS_CONFIG :: "string \<rightharpoonup> cfgval"
  WHO_CAN :: "string \<rightharpoonup> string set"
  warnings :: "string list"

definition cfg_get :: "string \<Rightarrow> (cfgval, 'a globals_scheme) prog" where
  "cfg_get k g = (case SMS_CONFIG g k of None \<Rightarrow> (Inl KeyError, g) | Some v \<Rightarrow> (Inr v, g))"

definition cfg_set :: "string \<Rightarrow> cfgval \<Rightarrow> (unit, 'a globals_scheme) prog" where
  "cfg_set k v g = (Inr (), g\<lparr>SMS_CONFIG := (SMS_CONFIG g)(k \<mapsto> v)\<rparr>)"

definition warn :: "string \<Rightarrow> (unit, 'a globals_scheme) prog" where
  "warn msg g = (Inr (), g\<lparr>warnings := warnings g @ [msg]\<rparr>)"

text \<open>\<^verbatim>\<open>_as_list(_SMS_CONFIG[k])\<close>: only a string has a \<^verbatim>\<open>split\<close> method.\<close>

definition as_list_of :: "cfgval \<Rightarrow> error + string list" where
  "as_list_of v = (case v of CStr s \<Rightarrow> Inr (as_list s (CHR '','')) | _ \<Rightarrow> Inl AttributeError)"

definition cfg_as_list :: "string \<Rightarrow> (string list, 'a globals_scheme) prog" where
  "cfg_as_list k = and_then (cfg_get k) (\<lambda>v g. (as_list_of v, g))"

text \<open>
  \<^verbatim>\<open>_SMS_CONFIG[k] = _as_list(_SMS_CONFIG[k])\<close> for a required key, and the same inside
  \<^verbatim>\<open>try: ... except KeyError: _SMS_CONFIG[k] = []\<close> for an optional one. Both return the
  list stored.
\<close>

definition cfg_listify :: "string \<Rightarrow> (string list, 'a globals_scheme) prog" where
  "cfg_listify k = and_then (cfg_as_list k) (\<lambda>xs. and_then (cfg_set k (CList xs)) (\<lambda>_. ret xs))"

definition cfg_listify_optional :: "string \<Rightarrow> (string list, 'a globals_scheme) prog" where
  "cfg_listify_optional k =
     except_KeyError (cfg_listify k) (and_then (cfg_set k (CList [])) (\<lambda>_. ret []))"

text \<open>The loop over the commands: aliases, and an empty \<^verbatim>\<open>_WHO_CAN\<close> entry each.\<close>

fun sms_commands :: "string list \<Rightarrow> (unit, 'a globals_scheme) prog" where
  "sms_commands [] = ret ()"
| "sms_commands (cmd # cmds) =
     and_then (cfg_listify_optional (cmd @ ''_aliases'')) (\<lambda>_.
     and_then (\<lambda>g. (Inr (), g\<lparr>WHO_CAN := (WHO_CAN g)(cmd \<mapsto> {})\<rparr>)) (\<lambda>_.
     sms_commands cmds))"

text \<open>
  \<^verbatim>\<open>for cmd in commands: for user in users: _WHO_CAN[cmd].add(user)\<close>. The lookup
  \<^verbatim>\<open>_WHO_CAN[cmd]\<close> is made once per user, so a command without an entry raises only when
  there is a user to add.
\<close>

fun who_can_add :: "string \<Rightarrow> string list \<Rightarrow> (unit, 'a globals_scheme) prog" where
  "who_can_add cmd [] = ret ()"
| "who_can_add cmd (user # users) =
     and_then
       (\<lambda>g. case WHO_CAN g cmd of
               None \<Rightarrow> (Inl KeyError, g)
             | Some us \<Rightarrow> (Inr (), g\<lparr>WHO_CAN := (WHO_CAN g)(cmd \<mapsto> insert user us)\<rparr>))
       (\<lambda>_. who_can_add cmd users)"

fun sms_grants :: "string list \<Rightarrow> string list \<Rightarrow> (unit, 'a globals_scheme) prog" where
  "sms_grants [] users = ret ()"
| "sms_grants (cmd # cmds) users = and_then (who_can_add cmd users) (\<lambda>_. sms_grants cmds users)"

text \<open>
  The loop over the throttle definitions of one group. A definition that does not split
  on \<open>:\<close> into two parts is warned about and skipped (\<^verbatim>\<open>continue\<close>); the limit of one that
  does goes through \<^verbatim>\<open>int()\<close>, whose \<open>ValueError\<close> nothing here catches.
\<close>

definition throttle_warning :: "string \<Rightarrow> string list \<Rightarrow> string" where
  "throttle_warning grp definition =
     grp @ ''_throttle definitions should be in the form [command]:<limit> - ''
       @ str_join (CHR '':'') definition"

fun throttle_definitions ::
  "string \<Rightarrow> string list \<Rightarrow> (string \<rightharpoonup> int) \<Rightarrow> (string \<rightharpoonup> int, 'a globals_scheme) prog"
where
  "throttle_definitions grp [] throttled_group = ret throttled_group"
| "throttle_definitions grp (d # ds) throttled_group =
     (let definition = str_split (CHR '':'') d in
      if length definition \<noteq> 2
      then and_then (warn (throttle_warning grp definition))
             (\<lambda>_. throttle_definitions grp ds throttled_group)
      else (case py_int (definition ! 1) of
              None \<Rightarrow> raise ValueError
            | Some throttle_limit \<Rightarrow>
                throttle_definitions grp ds (throttled_group(definition ! 0 \<mapsto> throttle_limit))))"

text \<open>\<^verbatim>\<open>_SMS_CONFIG['throttled_groups'][group] = throttled_group\<close>.\<close>

definition set_throttled_group :: "string \<Rightarrow> (string \<rightharpoonup> int) \<Rightarrow> (unit, 'a globals_scheme) prog" where
  "set_throttled_group grp throttled_group =
     and_then (cfg_get ''throttled_groups'') (\<lambda>v.
       case v of
         CThrottled tg \<Rightarrow> cfg_set ''throttled_groups'' (CThrottled (tg(grp \<mapsto> throttled_group)))
       | _ \<Rightarrow> raise TypeError)"

definition sms_throttle :: "string \<Rightarrow> (unit, 'a globals_scheme) prog" where
  "sms_throttle grp =
     except_KeyError
       (and_then (cfg_as_list (grp @ ''_throttle'')) (\<lambda>throttled_group_definitions.
        and_then (throttle_definitions grp throttled_group_definitions Map.empty) (\<lambda>throttled_group.
        set_throttled_group grp throttled_group)))
       (warn (''Throttle definition either does not exist or is configured incorrectly for group: ''
              @ grp))"

text \<open>The loop over the groups.\<close>

fun sms_groups :: "string list \<Rightarrow> (unit, 'a globals_scheme) prog" where
  "sms_groups [] = ret ()"
| "sms_groups (grp # groups) =
     and_then (cfg_listify_optional (grp @ ''_users'')) (\<lambda>users.
     and_then (cfg_listify_optional (grp @ ''_commands'')) (\<lambda>commands.
     and_then (sms_grants commands users) (\<lambda>_.
     and_then (sms_throttle grp) (\<lambda>_.
     sms_groups groups))))"

text \<open>
  \<^verbatim>\<open>sms()\<close>. The argument \<open>items\<close> is \<^verbatim>\<open>dict(CONFIG.items('sms'))\<close>, the options of the
  \<^verbatim>\<open>sms\<close> section as the configuration files give them. The dictionary is built only when
  \<^verbatim>\<open>_SMS_CONFIG\<close> is empty, and the function returns \<^verbatim>\<open>_SMS_CONFIG\<close>.
\<close>

definition raw_value :: "string option \<Rightarrow> cfgval" where
  "raw_value v = (case v of None \<Rightarrow> CNone | Some s \<Rightarrow> CStr s)"

definition sms_build :: "(string \<rightharpoonup> string option) \<Rightarrow> (unit, 'a globals_scheme) prog" where
  "sms_build items =
     and_then (\<lambda>g. (Inr (), g\<lparr>SMS_CONFIG := map_option raw_value \<circ> items,
                              WHO_CAN := [''all'' \<mapsto> {}]\<rparr>)) (\<lambda>_.
     and_then (cfg_listify ''commands'') (\<lambda>commands.
     and_then (sms_commands commands) (\<lambda>_.
     and_then (cfg_listify ''groups'') (\<lambda>groups.
     and_then (cfg_set ''throttled_groups'' (CThrottled Map.empty)) (\<lambda>_.
     and_then (sms_groups groups) (\<lambda>_.
     and_then (cfg_listify ''blacklist'') (\<lambda>_. ret ())))))))"

definition sms :: "(string \<rightharpoonup> string option) \<Rightarrow> (string \<rightharpoonup> cfgval, 'a globals_scheme) prog" where
  "sms items g =
     (if SMS_CONFIG g = Map.empty
      then and_then (sms_build items) (\<lambda>_ g'. (Inr (SMS_CONFIG g'), g')) g
      else (Inr (SMS_CONFIG g), g))"

section \<open>\<^verbatim>\<open>has_permission\<close>\<close>

text \<open>\<^verbatim>\<open>user in v\<close> for the values \<^verbatim>\<open>_SMS_CONFIG\<close> can hold.\<close>

definition py_in :: "string \<Rightarrow> cfgval \<Rightarrow> error + bool" where
  "py_in x v =
     (case v of
        CNone \<Rightarrow> Inl TypeError
      | CStr s \<Rightarrow> Inr (is_substring x s)
      | CList xs \<Rightarrow> Inr (x \<in> set xs)
      | CThrottled d \<Rightarrow> Inr (x \<in> dom d))"

definition who_can :: "string \<Rightarrow> (string set, 'a globals_scheme) prog" where
  "who_can k g = (case WHO_CAN g k of None \<Rightarrow> (Inl KeyError, g) | Some us \<Rightarrow> (Inr us, g))"

text \<open>
  \<^verbatim>\<open>not blacklisted and (user in _WHO_CAN['all'] or 'all' in _WHO_CAN[cmd] or user in
  _WHO_CAN[cmd])\<close>, evaluated left to right: \<^verbatim>\<open>_WHO_CAN[cmd]\<close> is looked up only when the
  user is neither blacklisted nor in \<^verbatim>\<open>_WHO_CAN['all']\<close>.
\<close>

definition has_permission ::
  "(string \<rightharpoonup> string option) \<Rightarrow> string \<Rightarrow> string \<Rightarrow> (bool, 'a globals_scheme) prog"
where
  "has_permission items user cmd =
     and_then (sms items) (\<lambda>config.
     and_then (\<lambda>g. (case config ''blacklist'' of None \<Rightarrow> Inl KeyError | Some v \<Rightarrow> py_in user v, g))
       (\<lambda>blacklisted.
     if blacklisted then ret False
     else and_then (who_can ''all'') (\<lambda>everything.
          if user \<in> everything then ret True
          else and_then (who_can cmd) (\<lambda>us.
               if ''all'' \<in> us then ret True else ret (user \<in> us)))))"

section \<open>Timestamps\<close>

text \<open>
  A naive \<^verbatim>\<open>datetime.datetime\<close>: its seven fields. Two of them are equal when all fields
  are, and they are ordered field by field, the year first.
\<close>

record datetime =
  year :: nat
  month :: nat
  day :: nat
  hour :: nat
  minute :: nat
  second :: nat
  microsecond :: nat

definition dt_fields :: "datetime \<Rightarrow> nat list" where
  "dt_fields d = [year d, month d, day d, hour d, minute d, second d, microsecond d]"

fun fields_less :: "nat list \<Rightarrow> nat list \<Rightarrow> bool" where
  "fields_less (x # xs) (y # ys) = (x < y \<or> (x = y \<and> fields_less xs ys))"
| "fields_less _ _ = False"

definition dt_less :: "datetime \<Rightarrow> datetime \<Rightarrow> bool" where
  "dt_less a b = fields_less (dt_fields a) (dt_fields b)"

text \<open>
  \<^verbatim>\<open>str(d)\<close> is \<^verbatim>\<open>d.isoformat(sep=' ')\<close>: \<^verbatim>\<open>%04d-%02d-%02d %02d:%02d:%02d\<close>, followed by
  \<^verbatim>\<open>.%06d\<close> of the microseconds only when they are not zero. The fields of a datetime
  fit their widths.
\<close>

definition digit_char :: "nat \<Rightarrow> char" where
  "digit_char n = ''0123456789'' ! (n mod 10)"

definition pad2 :: "nat \<Rightarrow> string" where
  "pad2 n = [digit_char (n div 10), digit_char n]"

definition pad4 :: "nat \<Rightarrow> string" where
  "pad4 n = pad2 (n div 100) @ pad2 n"

definition pad6 :: "nat \<Rightarrow> string" where
  "pad6 n = pad2 (n div 10000) @ pad4 n"

definition dt_str :: "datetime \<Rightarrow> string" where
  "dt_str d =
     pad4 (year d) @ ''-'' @ pad2 (month d) @ ''-'' @ pad2 (day d) @ '' ''
       @ pad2 (hour d) @ '':'' @ pad2 (minute d) @ '':'' @ pad2 (second d)
       @ (if microsecond d = 0 then [] else ''.'' @ pad6 (microsecond d))"

subsection \<open>The calendar\<close>

text \<open>
  The proleptic Gregorian calendar of the \<^verbatim>\<open>datetime\<close> module: the ordinal of a date (1 for
  0001-01-01) and back.
\<close>

definition is_leap :: "nat \<Rightarrow> bool" where
  "is_leap y = (y mod 4 = 0 \<and> (y mod 100 \<noteq> 0 \<or> y mod 400 = 0))"

definition days_in_month :: "nat \<Rightarrow> nat \<Rightarrow> nat" where
  "days_in_month y m =
     (if m = 2 \<and> is_leap y then 29
      else [0, 31, 28, 31, 30, 31, 30, 31, 31, 30, 31, 30, 31] ! m)"

definition days_before_month :: "nat \<Rightarrow> nat \<Rightarrow> nat" where
  "days_before_month y m =
     [0, 0, 31, 59, 90, 120, 151, 181, 212, 243, 273, 304, 334] ! m
       + (if m > 2 \<and> is_leap y then 1 else 0)"

definition days_before_year :: "nat \<Rightarrow> nat" where
  "days_before_year y = (let y1 = y - 1 in y1 * 365 + y1 div 4 - y1 div 100 + y1 div 400)"

definition ymd2ord :: "nat \<Rightarrow> nat \<Rightarrow> nat \<Rightarrow> nat" where
  "ymd2ord y m d = days_before_year y + days_before_month y m + d"

definition ord2ymd :: "nat \<Rightarrow> nat \<times> nat \<times> nat" where
  "ord2ymd ordinal =
     (let n = ordinal - 1;
          n400 = n div 146097; n = n mod 146097;
          n100 = n div 36524; n = n mod 36524;
          n4 = n div 1461; n = n mod 1461;
          n1 = n div 365; n = n mod 365;
          y = n400 * 400 + 1 + n100 * 100 + n4 * 4 + n1
      in if n1 = 4 \<or> n100 = 4 then (y - 1, 12, 31)
         else
           let leapyear = (n1 = 3 \<and> (n4 \<noteq> 24 \<or> n100 = 3));
               m = (n + 50) div 32;
               preceding = [0, 0, 31, 59, 90, 120, 151, 181, 212, 243, 273, 304, 334] ! m
                             + (if m > 2 \<and> leapyear then 1 else 0)
           in if preceding > n
              then let m' = m - 1;
                       preceding' = preceding
                         - ([0, 31, 28, 31, 30, 31, 30, 31, 31, 30, 31, 30, 31] ! m'
                            + (if m' = 2 \<and> leapyear then 1 else 0))
                   in (y, m', n - preceding' + 1)
              else (y, m, n - preceding + 1))"

text \<open>
  \<^verbatim>\<open>d + datetime.timedelta(seconds=n)\<close>. The timedelta constructor raises
  \<open>OverflowError\<close> when its days leave \<open>\<plusminus>999999999\<close>, and the sum when its date leaves the
  years 1 to 9999 (the ordinals 1 to 3652059).
\<close>

definition dt_add_seconds :: "datetime \<Rightarrow> int \<Rightarrow> error + datetime" where
  "dt_add_seconds d n =
     (if n div 86400 < - 999999999 \<or> 999999999 < n div 86400 then Inl OverflowError
      else
        let total = int (hour d * 3600 + minute d * 60 + second d) + n;
            ordinal = int (ymd2ord (year d) (month d) (day d)) + total div 86400;
            secs = nat (total mod 86400)
        in if ordinal < 1 \<or> 3652059 < ordinal then Inl OverflowError
           else
             (case ord2ymd (nat ordinal) of
                (y, m, dd) \<Rightarrow>
                  Inr \<lparr>year = y, month = m, day = dd, hour = secs div 3600,
                       minute = secs div 60 mod 60, second = secs mod 60,
                       microsecond = microsecond d\<rparr>))"

subsection \<open>\<^verbatim>\<open>strptime\<close>\<close>

text \<open>
  \<^verbatim>\<open>datetime.strptime(s, '%Y-%m-%d %H:%M:%S.%f')\<close> matches \<open>s\<close> against the regular
  expression the format stands for,
  \<^verbatim>\<open>(\d\d\d\d)-(1[0-2]|0[1-9]|[1-9])-(3[0-1]|[1-2]\d|0[1-9]|[1-9]| [1-9])\s+\<close>
  \<^verbatim>\<open>(2[0-3]|[0-1]\d|\d):([0-5]\d|\d):(6[0-1]|[0-5]\d|\d)\.([0-9]{1,6})\<close>,
  and raises \<open>ValueError\<close> when there is no match, when the match leaves text over, or when
  the fields are not a date and time. A matcher returns the ways it can match a prefix of
  the text, the one the regular expression engine tries first at the head: the text
  matched and the rest.
\<close>

type_synonym matcher = "string \<Rightarrow> (string \<times> string) list"

definition one_of :: "string \<Rightarrow> matcher" where
  "one_of cs s = (case s of [] \<Rightarrow> [] | c # r \<Rightarrow> if c \<in> set cs then [([c], r)] else [])"

definition followed_by :: "matcher \<Rightarrow> matcher \<Rightarrow> matcher" where
  "followed_by p q s = concat (map (\<lambda>(a, r). map (\<lambda>(b, r'). (a @ b, r')) (q r)) (p s))"

definition or_else :: "matcher \<Rightarrow> matcher \<Rightarrow> matcher" where
  "or_else p q s = p s @ q s"

text \<open>\<^verbatim>\<open>\s+\<close> and \<^verbatim>\<open>[0-9]{1,n}\<close> are greedy: the longest match comes first.\<close>

fun spaces :: matcher where
  "spaces [] = []"
| "spaces (c # r) = (if is_space c then map (\<lambda>(a, r'). (c # a, r')) (spaces r) @ [([c], r)] else [])"

fun digits_upto :: "nat \<Rightarrow> matcher" where
  "digits_upto 0 s = []"
| "digits_upto (Suc n) [] = []"
| "digits_upto (Suc n) (c # r) =
     (if is_digit c then map (\<lambda>(a, r'). (c # a, r')) (digits_upto n r) @ [([c], r)] else [])"

definition any_digit :: matcher where
  "any_digit = one_of ''0123456789''"

definition re_Y :: matcher where
  "re_Y = followed_by any_digit (followed_by any_digit (followed_by any_digit any_digit))"

definition re_m :: matcher where
  "re_m = or_else (followed_by (one_of ''1'') (one_of ''012''))
         (or_else (followed_by (one_of ''0'') (one_of ''123456789'')) (one_of ''123456789''))"

definition re_d :: matcher where
  "re_d = or_else (followed_by (one_of ''3'') (one_of ''01''))
         (or_else (followed_by (one_of ''12'') any_digit)
         (or_else (followed_by (one_of ''0'') (one_of ''123456789''))
         (or_else (one_of ''123456789'') (followed_by (one_of '' '') (one_of ''123456789'')))))"

definition re_H :: matcher where
  "re_H = or_else (followed_by (one_of ''2'') (one_of ''0123''))
         (or_else (followed_by (one_of ''01'') any_digit) any_digit)"

definition re_M :: matcher where
  "re_M = or_else (followed_by (one_of ''012345'') any_digit) any_digit"

definition re_S :: matcher where
  "re_S = or_else (followed_by (one_of ''6'') (one_of ''01''))
         (or_else (followed_by (one_of ''012345'') any_digit) any_digit)"

text \<open>
  The groups of the whole expression, in the order the engine finds them: each way to
  match gives the seven fields and the text left over.
\<close>

type_synonym groups_matcher = "string \<Rightarrow> (string list \<times> string) list"

definition group_then :: "groups_matcher \<Rightarrow> matcher \<Rightarrow> groups_matcher" where
  "group_then p q s = concat (map (\<lambda>(gs, r). map (\<lambda>(b, r'). (gs @ [b], r')) (q r)) (p s))"

definition skip_then :: "groups_matcher \<Rightarrow> matcher \<Rightarrow> groups_matcher" where
  "skip_then p q s = concat (map (\<lambda>(gs, r). map (\<lambda>(b, r'). (gs, r')) (q r)) (p s))"

definition re_date :: groups_matcher where
  "re_date =
     group_then (skip_then (group_then (skip_then (group_then (\<lambda>s. [([], s)])
       re_Y) (one_of ''-''))
       re_m) (one_of ''-''))
       re_d"

definition re_time :: "groups_matcher \<Rightarrow> groups_matcher" where
  "re_time p =
     group_then (skip_then (group_then (skip_then (group_then p
       re_H) (one_of '':''))
       re_M) (one_of '':''))
       re_S"

definition format_regex :: groups_matcher where
  "format_regex =
     group_then (skip_then (re_time (skip_then re_date spaces)) (one_of ''.'')) (digits_upto 6)"

text \<open>
  The fields of a match as numbers (the fraction is padded with zeros on the right to six
  digits), and the checks of the \<^verbatim>\<open>datetime\<close> constructor.
\<close>

definition field_val :: "string \<Rightarrow> nat" where
  "field_val f = digits_val (filter is_digit f)"

definition make_datetime :: "nat \<Rightarrow> nat \<Rightarrow> nat \<Rightarrow> nat \<Rightarrow> nat \<Rightarrow> nat \<Rightarrow> nat \<Rightarrow> error + datetime" where
  "make_datetime y m d hh mm ss us =
     (if 1 \<le> y \<and> y \<le> 9999 \<and> 1 \<le> m \<and> m \<le> 12 \<and> 1 \<le> d \<and> d \<le> days_in_month y m
         \<and> hh < 24 \<and> mm < 60 \<and> ss < 60 \<and> us < 1000000
      then Inr \<lparr>year = y, month = m, day = d, hour = hh, minute = mm, second = ss,
                microsecond = us\<rparr>
      else Inl ValueError)"

definition strptime :: "string \<Rightarrow> error + datetime" where
  "strptime data_string =
     (case format_regex data_string of
        [] \<Rightarrow> Inl ValueError
      | (gs, rest) # _ \<Rightarrow>
          if rest \<noteq> [] then Inl ValueError
          else (case gs of
                  [Y, m, d, H, M, S, f] \<Rightarrow>
                    make_datetime (field_val Y) (field_val m) (field_val d) (field_val H)
                      (field_val M) (field_val S)
                      (field_val (f @ replicate (6 - length f) (CHR ''0'')))
                | _ \<Rightarrow> Inl ValueError))"

section \<open>The application state: \<^verbatim>\<open>load_state\<close>, \<^verbatim>\<open>get_state\<close>, \<^verbatim>\<open>update_state\<close>\<close>

text \<open>
  The throttle window is a Python dictionary. Under \<^verbatim>\<open>throttle_timestamp_start\<close> the code
  stores a string, and under the name of a group the dictionary of that group's counts;
  these are the two kinds of value a window written by this module holds.
\<close>

datatype entry = EStr string | EDict "string \<rightharpoonup> int"

type_synonym throttle_state = "string \<rightharpoonup> entry"

text \<open>
  The text of a state option is kept by what \<^verbatim>\<open>ast.literal_eval\<close> makes of it: \<open>Repr d\<close>
  is the text \<^verbatim>\<open>str(d)\<close> of a window \<open>d\<close>, which \<^verbatim>\<open>literal_eval\<close> reads back as \<open>d\<close>, and
  \<open>Malformed\<close> is a text that \<^verbatim>\<open>literal_eval\<close> rejects. A text that evaluates to a Python
  value of another shape is not modelled.
\<close>

datatype blob = Malformed | Repr throttle_state

definition literal_eval :: "blob \<Rightarrow> error + throttle_state" where
  "literal_eval t = (case t of Malformed \<Rightarrow> Inl SyntaxError | Repr d \<Rightarrow> Inr d)"

text \<open>
  The contents of a \<^verbatim>\<open>RawConfigParser\<close>, section by section, and the state file by what
  \<^verbatim>\<open>readfp\<close> gets from it: \<open>Content f\<close> parses to the sections \<open>f\<close>; \<open>Corrupt f\<close> makes
  \<^verbatim>\<open>readfp\<close> raise after it has read the sections \<open>f\<close>.
\<close>

type_synonym sections = "string \<rightharpoonup> (string \<rightharpoonup> blob)"

datatype cfg_file = Content sections | Corrupt sections

text \<open>What the module does to the state file, in order.\<close>

datatype event = Open_read | Open_write | Lock_shared | Lock_exclusive | Read_file | Write_file
  | Unlock | Close

text \<open>
  The globals of the module together with the parser \<^verbatim>\<open>STATE\<close>, the file
  \<^verbatim>\<open>state.cfg\<close>, whether writing to the file fails, and the file operations so far.
\<close>

record world = globals +
  STATE :: sections
  state_file :: cfg_file
  write_fails :: bool
  trace :: "event list"

definition STATE_SECTION :: string where
  "STATE_SECTION = ''do_not_modify''"

text \<open>\<^verbatim>\<open>STATE.readfp\<close> adds the options of the file to those the parser already has.\<close>

definition read_into :: "sections \<Rightarrow> sections \<Rightarrow> sections" where
  "read_into st f =
     (\<lambda>sec. case f sec of
              None \<Rightarrow> st sec
            | Some opts \<Rightarrow> Some ((case st sec of None \<Rightarrow> Map.empty | Some old \<Rightarrow> old) ++ opts))"

text \<open>
  \<^verbatim>\<open>load_state\<close>: open, shared lock, \<^verbatim>\<open>readfp\<close>, unlock; the \<^verbatim>\<open>with\<close> block closes the
  file on the way out, also when \<^verbatim>\<open>readfp\<close> raises, and then the unlock is not reached.
\<close>

definition emit :: "event list \<Rightarrow> 'a world_scheme \<Rightarrow> 'a world_scheme" where
  "emit es w = w\<lparr>trace := trace w @ es\<rparr>"

definition load_state :: "(unit, 'a world_scheme) prog" where
  "load_state w =
     (case state_file w of
        Content f \<Rightarrow>
          (Inr (), emit [Open_read, Lock_shared, Read_file, Unlock, Close]
                     (w\<lparr>STATE := read_into (STATE w) f\<rparr>))
      | Corrupt f \<Rightarrow>
          (Inl ParsingError, emit [Open_read, Lock_shared, Read_file, Close]
                     (w\<lparr>STATE := read_into (STATE w) f\<rparr>)))"

text \<open>
  \<^verbatim>\<open>get_state(name, default)\<close>: the option, or the default when the section or the option is
  missing.
\<close>

definition get_state :: "string \<Rightarrow> blob \<Rightarrow> (blob, 'a world_scheme) prog" where
  "get_state name dflt w =
     (case STATE w STATE_SECTION of
        None \<Rightarrow> (Inr dflt, w)
      | Some opts \<Rightarrow> (case opts name of None \<Rightarrow> (Inr dflt, w) | Some v \<Rightarrow> (Inr v, w)))"

text \<open>
  \<^verbatim>\<open>update_state(name, value)\<close>: the section is added unless it is there, the option is
  set, and the whole parser is written to the file: opening with \<^verbatim>\<open>'wb'\<close> empties the file,
  then exclusive lock, write, unlock, and the \<^verbatim>\<open>with\<close> block closes.
\<close>

definition set_option :: "string \<Rightarrow> blob \<Rightarrow> sections \<Rightarrow> sections" where
  "set_option name v st =
     st(STATE_SECTION \<mapsto>
          (case st STATE_SECTION of None \<Rightarrow> Map.empty | Some opts \<Rightarrow> opts)(name \<mapsto> v))"

definition update_state :: "string \<Rightarrow> blob \<Rightarrow> (unit, 'a world_scheme) prog" where
  "update_state name v w =
     (let st = set_option name v (STATE w) in
      if write_fails w
      then (Inl IOError, emit [Open_write, Lock_exclusive, Close]
                           (w\<lparr>STATE := st, state_file := Content Map.empty\<rparr>))
      else (Inr (), emit [Open_write, Lock_exclusive, Write_file, Unlock, Close]
                      (w\<lparr>STATE := st, state_file := Content st\<rparr>)))"

section \<open>\<^verbatim>\<open>is_throttle_exceeded\<close>\<close>

definition lift :: "error + 'a \<Rightarrow> ('a, 's) prog" where
  "lift r s = (r, s)"

text \<open>\<^verbatim>\<open>int(v)\<close> and \<^verbatim>\<open>for x in v\<close> for the values \<^verbatim>\<open>_SMS_CONFIG\<close> can hold.\<close>

definition int_of :: "cfgval \<Rightarrow> error + int" where
  "int_of v =
     (case v of
        CStr s \<Rightarrow> (case py_int s of None \<Rightarrow> Inl ValueError | Some n \<Rightarrow> Inr n)
      | _ \<Rightarrow> Inl TypeError)"

text \<open>
  Iterating a string gives its characters, and \<open>None\<close> cannot be iterated. The order in
  which a dictionary gives its keys is not modelled: the model raises \<open>TypeError\<close> in its
  place. No run reaches that case, since \<^verbatim>\<open>sms()\<close> stores a dictionary under
  \<^verbatim>\<open>throttled_groups\<close> only, and that key is never iterated.
\<close>

definition py_iter :: "cfgval \<Rightarrow> error + string list" where
  "py_iter v =
     (case v of
        CStr s \<Rightarrow> Inr (map (\<lambda>c. [c]) s)
      | CList xs \<Rightarrow> Inr xs
      | _ \<Rightarrow> Inl TypeError)"

definition TIMESTAMP :: string where
  "TIMESTAMP = ''throttle_timestamp_start''"

definition fresh_window :: "datetime \<Rightarrow> throttle_state" where
  "fresh_window current_timestamp = [TIMESTAMP \<mapsto> EStr (dt_str current_timestamp)]"

text \<open>
  The first part of the check: the state is loaded, the window evaluated from the option
  \<^verbatim>\<open>throttle\<close> (\<^verbatim>\<open>'{}'\<close> when missing), and reset when the time says so. The result is the
  window the rest of the check goes on with.
\<close>

definition throttle_starttime :: "datetime \<Rightarrow> throttle_state \<Rightarrow> error + datetime" where
  "throttle_starttime current_timestamp throttle_state =
     (case throttle_state TIMESTAMP of
        None \<Rightarrow> Inr current_timestamp
      | Some (EStr s) \<Rightarrow> strptime s
      | Some (EDict _) \<Rightarrow> Inl TypeError)"

definition load_window :: "datetime \<Rightarrow> (throttle_state, 'a world_scheme) prog" where
  "load_window current_timestamp =
     and_then load_state (\<lambda>_.
     and_then (get_state ''throttle'' (Repr Map.empty)) (\<lambda>t.
     and_then (lift (literal_eval t)) (\<lambda>throttle_state.
     and_then (cfg_get ''throttle_time_limit_seconds'') (\<lambda>throttle_timelimit.
     and_then (lift (throttle_starttime current_timestamp throttle_state)) (\<lambda>starttime.
     and_then (lift (int_of throttle_timelimit)) (\<lambda>seconds.
     and_then (lift (dt_add_seconds starttime seconds)) (\<lambda>stoptime.
     if current_timestamp = starttime \<or> dt_less stoptime current_timestamp
     then and_then (update_state ''throttle'' (Repr (fresh_window current_timestamp)))
            (\<lambda>_. ret (fresh_window current_timestamp))
     else ret throttle_state)))))))"

text \<open>
  The loop over the groups. It ends at the first group whose user list has the user,
  which has an entry in \<^verbatim>\<open>throttled_groups\<close>, and after which one of the two limits is not
  \<open>-1\<close>; the result is that group and the limits, or no group after the last one.
\<close>

definition throttled_commands_of :: "string \<Rightarrow> cfgval \<Rightarrow> error + (string \<rightharpoonup> int)" where
  "throttled_commands_of grp v =
     (case v of
        CThrottled d \<Rightarrow> (case d grp of None \<Rightarrow> Inl KeyError | Some tc \<Rightarrow> Inr tc)
      | _ \<Rightarrow> Inl TypeError)"

fun find_throttled_group ::
  "string \<Rightarrow> string \<Rightarrow> string list \<Rightarrow> int \<Rightarrow> int
     \<Rightarrow> (string option \<times> int \<times> int, 'a globals_scheme) prog"
where
  "find_throttled_group cmd user [] all_throttle_limit cmd_throttle_limit =
     ret (None, all_throttle_limit, cmd_throttle_limit)"
| "find_throttled_group cmd user (grp # groups) all_throttle_limit cmd_throttle_limit =
     and_then (cfg_get (grp @ ''_users'')) (\<lambda>userlist.
     and_then (lift (py_in user userlist)) (\<lambda>is_member.
     if \<not> is_member
     then find_throttled_group cmd user groups all_throttle_limit cmd_throttle_limit
     else
       and_then (cfg_get ''throttled_groups'') (\<lambda>throttled_groups.
       and_then (lift (py_in grp throttled_groups)) (\<lambda>is_throttled.
       if \<not> is_throttled
       then find_throttled_group cmd user groups all_throttle_limit cmd_throttle_limit
       else
         and_then (lift (throttled_commands_of grp throttled_groups)) (\<lambda>throttled_commands.
         let all_limit = (case throttled_commands ''all'' of
                            None \<Rightarrow> all_throttle_limit | Some n \<Rightarrow> n);
             cmd_limit = (case throttled_commands cmd of
                            None \<Rightarrow> cmd_throttle_limit | Some n \<Rightarrow> n)
         in if all_limit \<noteq> - 1 \<or> cmd_limit \<noteq> - 1
            then ret (Some grp, all_limit, cmd_limit)
            else find_throttled_group cmd user groups all_limit cmd_limit)))))"

text \<open>
  The counts of the governing group: \<^verbatim>\<open>int(e[k]) if k in e else 0\<close> and \<^verbatim>\<open>e[k] = n\<close>. For a
  string \<open>e\<close>, \<^verbatim>\<open>k in e\<close> is the substring test, and indexing or assigning with a string key
  raises \<open>TypeError\<close>.
\<close>

definition entry_count :: "string \<Rightarrow> entry \<Rightarrow> error + int" where
  "entry_count k e =
     (case e of
        EDict d \<Rightarrow> Inr (case d k of None \<Rightarrow> 0 | Some n \<Rightarrow> n)
      | EStr s \<Rightarrow> if is_substring k s then Inl TypeError else Inr 0)"

definition entry_set :: "string \<Rightarrow> int \<Rightarrow> entry \<Rightarrow> error + entry" where
  "entry_set k n e = (case e of EDict d \<Rightarrow> Inr (EDict (d(k \<mapsto> n))) | EStr s \<Rightarrow> Inl TypeError)"

text \<open>
  What the function returns: \<^verbatim>\<open>True\<close>, \<^verbatim>\<open>False\<close>, or the integer \<open>-1\<close> that
  \<^verbatim>\<open>process_command_flag\<close> starts with. A caller's \<^verbatim>\<open>if\<close> takes a non-zero integer as true.
\<close>

datatype pyflag = PBool bool | PInt int

definition truthy :: "pyflag \<Rightarrow> bool" where
  "truthy v = (case v of PBool b \<Rightarrow> b | PInt n \<Rightarrow> n \<noteq> 0)"

text \<open>
  The block for \<open>all\<close>: it returns \<^verbatim>\<open>True\<close> at once when the limit is reached, and else goes
  on with the flag, the counts of the group and the window it has changed.
\<close>

datatype 'a step = Return pyflag | Continue 'a

definition apply_all ::
  "int \<Rightarrow> string \<Rightarrow> pyflag \<times> entry \<times> throttle_state
     \<Rightarrow> error + (pyflag \<times> entry \<times> throttle_state) step"
where
  "apply_all all_throttle_limit throttled_group st =
     (case st of (process_command_flag, group_throttle_state, throttle_state) \<Rightarrow>
        if all_throttle_limit \<noteq> - 1
        then (case entry_count ''all'' group_throttle_state of
                Inl e \<Rightarrow> Inl e
              | Inr groupthrottlealllimit \<Rightarrow>
                  if groupthrottlealllimit < all_throttle_limit
                  then (case entry_set ''all'' (groupthrottlealllimit + 1) group_throttle_state of
                          Inl e \<Rightarrow> Inl e
                        | Inr gts \<Rightarrow>
                            Inr (Continue (PBool False, gts, throttle_state(throttled_group \<mapsto> gts))))
                  else Inr (Return (PBool True)))
        else Inr (Continue st))"

definition apply_cmd ::
  "int \<Rightarrow> string \<Rightarrow> int \<Rightarrow> string \<Rightarrow> pyflag \<times> entry \<times> throttle_state
     \<Rightarrow> error + pyflag \<times> entry \<times> throttle_state"
where
  "apply_cmd cmd_throttle_limit cmd group_throttle_cmd_limit throttled_group st =
     (case st of (process_command_flag, group_throttle_state, throttle_state) \<Rightarrow>
        if cmd_throttle_limit \<noteq> - 1 \<and> group_throttle_cmd_limit < cmd_throttle_limit
        then (case entry_set cmd (group_throttle_cmd_limit + 1) group_throttle_state of
                Inl e \<Rightarrow> Inl e
              | Inr gts \<Rightarrow> Inr (PBool False, gts, throttle_state(throttled_group \<mapsto> gts)))
        else Inr st)"

text \<open>
  The second part of the check, from the window of the first part: the governing group is
  looked for; without one (\<^verbatim>\<open>not throttled_group\<close>, which the empty name satisfies too) the
  function returns \<^verbatim>\<open>False\<close>; else the limits are applied and the window is written.
\<close>

definition group_throttle_state_of :: "string \<Rightarrow> throttle_state \<Rightarrow> entry" where
  "group_throttle_state_of throttled_group throttle_state =
     (case throttle_state throttled_group of None \<Rightarrow> EDict Map.empty | Some e \<Rightarrow> e)"

definition check_limits ::
  "string \<Rightarrow> string \<Rightarrow> int \<Rightarrow> int \<Rightarrow> throttle_state \<Rightarrow> (pyflag, 'a world_scheme) prog"
where
  "check_limits cmd throttled_group all_throttle_limit cmd_throttle_limit throttle_state =
     (let group_throttle_state = group_throttle_state_of throttled_group throttle_state in
      and_then (lift (entry_count cmd group_throttle_state)) (\<lambda>group_throttle_cmd_limit.
      and_then (lift (apply_all all_throttle_limit throttled_group
                        (PInt (- 1), group_throttle_state, throttle_state))) (\<lambda>s.
      case s of
        Return v \<Rightarrow> ret v
      | Continue st \<Rightarrow>
          and_then (lift (apply_cmd cmd_throttle_limit cmd group_throttle_cmd_limit
                            throttled_group st)) (\<lambda>(process_command_flag, _, throttle_state').
          and_then (update_state ''throttle'' (Repr throttle_state')) (\<lambda>_.
          ret process_command_flag)))))"

definition apply_throttle :: "string \<Rightarrow> string \<Rightarrow> throttle_state \<Rightarrow> (pyflag, 'a world_scheme) prog" where
  "apply_throttle cmd user throttle_state =
     and_then (cfg_get ''groups'') (\<lambda>groups_value.
     and_then (lift (py_iter groups_value)) (\<lambda>groups.
     and_then (find_throttled_group cmd user groups (- 1) (- 1))
       (\<lambda>(throttled_group, all_throttle_limit, cmd_throttle_limit).
     case throttled_group of
       None \<Rightarrow> ret (PBool False)
     | Some grp \<Rightarrow>
         if grp = [] then ret (PBool False)
         else check_limits cmd grp all_throttle_limit cmd_throttle_limit throttle_state)))"

text \<open>
  \<^verbatim>\<open>is_throttle_exceeded(cmd, user)\<close>, at the time \<^verbatim>\<open>datetime.datetime.now()\<close> returns.
\<close>

definition is_throttle_exceeded :: "datetime \<Rightarrow> string \<Rightarrow> string \<Rightarrow> (pyflag, 'a world_scheme) prog" where
  "is_throttle_exceeded current_timestamp cmd user =
     and_then (load_window current_timestamp) (apply_throttle cmd user)"

section \<open>The governing group, as the specification words it\<close>

text \<open>
  The limit a throttle definition gives a key, \<open>-1\<close> when it gives none; the user is a
  member of the group; and the group governs: the user is a member and the definition of
  the group has a limit other than \<open>-1\<close> for \<open>all\<close> or for the command.
\<close>

definition limit_of :: "(string \<rightharpoonup> int) \<Rightarrow> string \<Rightarrow> int" where
  "limit_of throttled_commands k = (case throttled_commands k of None \<Rightarrow> - 1 | Some n \<Rightarrow> n)"

definition users_listed :: "(string \<rightharpoonup> cfgval) \<Rightarrow> string \<Rightarrow> bool" where
  "users_listed config grp =
     (case config (grp @ ''_users'') of Some (CList us) \<Rightarrow> True | _ \<Rightarrow> False)"

definition is_member :: "(string \<rightharpoonup> cfgval) \<Rightarrow> string \<Rightarrow> string \<Rightarrow> bool" where
  "is_member config user grp =
     (case config (grp @ ''_users'') of Some (CList us) \<Rightarrow> user \<in> set us | _ \<Rightarrow> False)"

definition governs ::
  "(string \<rightharpoonup> (string \<rightharpoonup> int)) \<Rightarrow> (string \<rightharpoonup> cfgval) \<Rightarrow> string \<Rightarrow> string \<Rightarrow> string \<Rightarrow> bool"
where
  "governs throttled_groups config user cmd grp =
     (is_member config user grp
      \<and> (case throttled_groups grp of
            None \<Rightarrow> False
          | Some tc \<Rightarrow> limit_of tc ''all'' \<noteq> - 1 \<or> limit_of tc cmd \<noteq> - 1))"

text \<open>The first governing group in the order of declaration, with its two limits.\<close>

definition governing_group ::
  "(string \<rightharpoonup> (string \<rightharpoonup> int)) \<Rightarrow> (string \<rightharpoonup> cfgval) \<Rightarrow> string \<Rightarrow> string \<Rightarrow> string list
     \<Rightarrow> string option \<times> int \<times> int"
where
  "governing_group throttled_groups config user cmd groups =
     (case find (governs throttled_groups config user cmd) groups of
        None \<Rightarrow> (None, - 1, - 1)
      | Some grp \<Rightarrow>
          (case throttled_groups grp of
             None \<Rightarrow> (None, - 1, - 1)
           | Some tc \<Rightarrow> (Some grp, limit_of tc ''all'', limit_of tc cmd)))"


text \<open>\<^verbatim>\<open>d.get(k, 0)\<close> for a dictionary of counts.\<close>

definition count_of :: "(string \<rightharpoonup> int) \<Rightarrow> string \<Rightarrow> int" where
  "count_of d k = (case d k of None \<Rightarrow> 0 | Some n \<Rightarrow> n)"

section \<open>Observing the state file\<close>

text \<open>
  The world after \<^verbatim>\<open>update_state('throttle', window)\<close> has returned, and what a reader of
  the state file then finds: the window stored, and the count stored for a group and a key.
\<close>

definition persisted :: "throttle_state \<Rightarrow> 'a world_scheme \<Rightarrow> 'a world_scheme" where
  "persisted throttle_state w =
     emit [Open_write, Lock_exclusive, Write_file, Unlock, Close]
       (w\<lparr>STATE := set_option ''throttle'' (Repr throttle_state) (STATE w),
          state_file := Content (set_option ''throttle'' (Repr throttle_state) (STATE w))\<rparr>)"

definition stored_window :: "'a world_scheme \<Rightarrow> throttle_state option" where
  "stored_window w =
     (case state_file w of
        Corrupt _ \<Rightarrow> None
      | Content st \<Rightarrow>
          (case st STATE_SECTION of
             None \<Rightarrow> None
           | Some opts \<Rightarrow> (case opts ''throttle'' of Some (Repr d) \<Rightarrow> Some d | _ \<Rightarrow> None)))"

definition stored_count :: "'a world_scheme \<Rightarrow> string \<Rightarrow> string \<Rightarrow> int option" where
  "stored_count w grp k =
     (case stored_window w of
        None \<Rightarrow> None
      | Some d \<Rightarrow> (case d grp of Some (EDict counts) \<Rightarrow> counts k | _ \<Rightarrow> None))"

section \<open>The window the check has in memory at its end\<close>



section \<open>Example configurations\<close>

text \<open>
  An \<^verbatim>\<open>sms\<close> section with two commands and two groups. The group \<^verbatim>\<open>vip\<close> grants every
  command and is throttled for \<open>all\<close> and for \<^verbatim>\<open>play\<close>; the group \<^verbatim>\<open>guest\<close> grants \<^verbatim>\<open>play\<close>,
  and one of its two throttle definitions has no limit.
\<close>

definition example_items :: "string \<rightharpoonup> string option" where
  "example_items =
     [''commands'' \<mapsto> Some ''play, volume'',
      ''groups'' \<mapsto> Some ''vip, guest'',
      ''vip_users'' \<mapsto> Some ''alice'',
      ''vip_commands'' \<mapsto> Some ''all'',
      ''vip_throttle'' \<mapsto> Some ''all:5, play:1'',
      ''guest_users'' \<mapsto> Some ''alice, bob, eve'',
      ''guest_commands'' \<mapsto> Some ''play'',
      ''guest_throttle'' \<mapsto> Some ''all:100, volume'',
      ''blacklist'' \<mapsto> Some ''eve'',
      ''throttle_time_limit_seconds'' \<mapsto> Some ''60'']"

text \<open>The module right after import: nothing configured, an empty state file.\<close>

definition initial_world :: world where
  "initial_world =
     \<lparr>SMS_CONFIG = Map.empty, WHO_CAN = Map.empty, warnings = [],
      STATE = Map.empty, state_file = Content Map.empty, write_fails = False, trace = []\<rparr>"

text \<open>What \<^verbatim>\<open>sms()\<close> builds from \<open>example_items\<close>, written out.\<close>

definition example_config :: "string \<rightharpoonup> cfgval" where
  "example_config =
     [''commands'' \<mapsto> CList [''play'', ''volume''],
      ''play_aliases'' \<mapsto> CList [],
      ''volume_aliases'' \<mapsto> CList [],
      ''groups'' \<mapsto> CList [''vip'', ''guest''],
      ''vip_users'' \<mapsto> CList [''alice''],
      ''vip_commands'' \<mapsto> CList [''all''],
      ''vip_throttle'' \<mapsto> CStr ''all:5, play:1'',
      ''guest_users'' \<mapsto> CList [''alice'', ''bob'', ''eve''],
      ''guest_commands'' \<mapsto> CList [''play''],
      ''guest_throttle'' \<mapsto> CStr ''all:100, volume'',
      ''throttled_groups'' \<mapsto>
         CThrottled [''vip'' \<mapsto> [''all'' \<mapsto> 5, ''play'' \<mapsto> 1], ''guest'' \<mapsto> [''all'' \<mapsto> 100]],
      ''blacklist'' \<mapsto> CList [''eve''],
      ''throttle_time_limit_seconds'' \<mapsto> CStr ''60'']"

definition example_world :: world where
  "example_world =
     \<lparr>SMS_CONFIG = example_config,
      WHO_CAN = [''all'' \<mapsto> {''alice''}, ''play'' \<mapsto> {''alice'', ''bob'', ''eve''}, ''volume'' \<mapsto> {}],
      warnings = [''guest_throttle definitions should be in the form [command]:<limit> - volume''],
      STATE = Map.empty, state_file = Content Map.empty, write_fails = False, trace = []\<rparr>"

text \<open>A state file that \<^verbatim>\<open>readfp\<close> cannot parse, and a disk that cannot be written.\<close>

definition corrupt_world :: world where
  "corrupt_world = example_world\<lparr>state_file := Corrupt Map.empty\<rparr>"

definition full_disk_world :: world where
  "full_disk_world = example_world\<lparr>write_fails := True\<rparr>"

text \<open>Two times ten seconds apart; the first has no microseconds.\<close>

definition midnight :: datetime where
  "midnight = \<lparr>year = 2014, month = 12, day = 25, hour = 0, minute = 0, second = 0,
               microsecond = 0\<rparr>"

definition ten_past :: datetime where
  "ten_past = \<lparr>year = 2014, month = 12, day = 25, hour = 0, minute = 0, second = 10,
               microsecond = 250000\<rparr>"

text \<open>The example section with a limit that is not a number.\<close>

definition bad_limit_items :: "string \<rightharpoonup> string option" where
  "bad_limit_items = example_items(''guest_throttle'' \<mapsto> Some ''play:abc, all:100'')"

text \<open>The module when \<^verbatim>\<open>sms()\<close> has copied that section and parsed nothing yet.\<close>

definition bad_limit_world :: world where
  "bad_limit_world = initial_world\<lparr>SMS_CONFIG := map_option raw_value \<circ> bad_limit_items\<rparr>"

text \<open>
  A state file with a window that started five seconds past midnight, in which \<^verbatim>\<open>vip\<close> has
  used its one \<^verbatim>\<open>play\<close> and \<^verbatim>\<open>guest\<close> all of its hundred commands; and one whose option
  \<^verbatim>\<open>throttle\<close> does not evaluate.
\<close>

definition running_window :: throttle_state where
  "running_window =
     [TIMESTAMP \<mapsto> EStr ''2014-12-25 00:00:05.000001'',
      ''vip'' \<mapsto> EDict [''all'' \<mapsto> 1, ''play'' \<mapsto> 1],
      ''guest'' \<mapsto> EDict [''all'' \<mapsto> 100]]"

definition running_world :: world where
  "running_world =
     example_world\<lparr>state_file := Content [STATE_SECTION \<mapsto> [''throttle'' \<mapsto> Repr running_window]]\<rparr>"

definition malformed_world :: world where
  "malformed_world =
     example_world\<lparr>state_file := Content [STATE_SECTION \<mapsto> [''throttle'' \<mapsto> Malformed]]\<rparr>"

definition two_minutes_past :: datetime where
  "two_minutes_past = \<lparr>year = 2014, month = 12, day = 25, hour = 0, minute = 2, second = 0,
                       microsecond = 500\<rparr>"

text \<open>
  Two groups with the same member, the first with the limit \<open>-1\<close> for \<open>all\<close> and the second
  with the limit 100.
\<close>

definition sentinel_items :: "string \<rightharpoonup> string option" where
  "sentinel_items =
     [''commands'' \<mapsto> Some ''play'',
      ''groups'' \<mapsto> Some ''first, second'',
      ''first_users'' \<mapsto> Some ''alice'',
      ''first_throttle'' \<mapsto> Some ''all:-1'',
      ''second_users'' \<mapsto> Some ''alice'',
      ''second_throttle'' \<mapsto> Some ''all:100'',
      ''blacklist'' \<mapsto> Some ''eve'',
      ''throttle_time_limit_seconds'' \<mapsto> Some ''60'']"

text \<open>
  The state file as the check at \<open>midnight\<close> for \<^verbatim>\<open>bob\<close> leaves it: the window reset at
  midnight, with one command counted for \<^verbatim>\<open>guest\<close>.
\<close>

definition stale_window :: throttle_state where
  "stale_window = (fresh_window midnight)(''guest'' \<mapsto> EDict [''all'' \<mapsto> 1])"

definition stale_world :: world where
  "stale_world =
     example_world\<lparr>state_file := Content [STATE_SECTION \<mapsto> [''throttle'' \<mapsto> Repr stale_window]]\<rparr>"

section \<open>Evaluation\<close>

lemmas prog_defs = ret_def raise_def and_then_def except_KeyError_def lift_def

lemmas string_defs = strip_def is_space_def as_list_def py_int_def py_digits_def is_digit_def
  digits_val_def digit_val_def

lemmas sms_defs = cfg_get_def cfg_set_def warn_def as_list_of_def cfg_as_list_def cfg_listify_def
  cfg_listify_optional_def throttle_warning_def set_throttled_group_def sms_throttle_def
  raw_value_def sms_build_def sms_def py_in_def who_can_def has_permission_def

lemma digits_upto_6: "digits_upto 6 = digits_upto (Suc (Suc (Suc (Suc (Suc (Suc 0))))))"
  by (simp add: eval_nat_numeral)

lemmas regex_defs = one_of_def followed_by_def or_else_def any_digit_def re_Y_def re_m_def
  re_d_def re_H_def re_M_def re_S_def group_then_def skip_then_def re_date_def re_time_def
  format_regex_def field_val_def make_datetime_def strptime_def days_in_month_def
  digits_upto_6

lemmas datetime_defs = dt_str_def pad2_def pad4_def pad6_def digit_char_def dt_add_seconds_def
  ymd2ord_def ord2ymd_def days_before_year_def days_before_month_def Let_def dt_less_def
  dt_fields_def is_leap_def

lemmas state_defs = literal_eval_def STATE_SECTION_def read_into_def emit_def load_state_def
  get_state_def set_option_def update_state_def

lemmas throttle_defs = int_of_def py_iter_def TIMESTAMP_def fresh_window_def
  throttle_starttime_def load_window_def throttled_commands_of_def entry_count_def entry_set_def
  apply_all_def apply_cmd_def group_throttle_state_of_def check_limits_def apply_throttle_def
  is_throttle_exceeded_def

lemmas example_defs = example_config_def example_world_def corrupt_world_def full_disk_world_def
  midnight_def ten_past_def running_window_def running_world_def malformed_world_def
  two_minutes_past_def stale_window_def stale_world_def

lemmas governs_defs = governs_def is_member_def users_listed_def limit_of_def governing_group_def

lemmas observe_defs = persisted_def stored_window_def stored_count_def


lemmas eval_defs = example_defs prog_defs string_defs regex_defs datetime_defs state_defs
  throttle_defs cfg_get_def py_in_def

section \<open>Sequencing\<close>

lemma and_then_cases:
  "and_then m f s = (r, s'') \<Longrightarrow>
     (\<exists>e. m s = (Inl e, s'') \<and> r = Inl e) \<or> (\<exists>a s'. m s = (Inr a, s') \<and> f a s' = (r, s''))"
  by (auto simp: and_then_def split: prod.splits sum.splits)

lemma and_then_Inr:
  "and_then m f s = (Inr b, s'') \<longleftrightarrow> (\<exists>a s'. m s = (Inr a, s') \<and> f a s' = (Inr b, s''))"
  by (auto simp: and_then_def split: prod.splits sum.splits)

lemma and_then_InrE:
  assumes "and_then m f s = (Inr b, s'')"
  obtains a s' where "m s = (Inr a, s')" and "f a s' = (Inr b, s'')"
  using assms by (auto simp: and_then_def split: prod.splits sum.splits)

lemma and_then_ok: "m s = (Inr a, s') \<Longrightarrow> and_then m f s = f a s'"
  by (simp add: and_then_def)

lemma and_then_fail: "m s = (Inl e, s') \<Longrightarrow> and_then m f s = (Inl e, s')"
  by (simp add: and_then_def)

lemma except_KeyError_cases:
  "except_KeyError m h s = (r, s'') \<Longrightarrow>
     (\<exists>s'. m s = (Inl KeyError, s') \<and> h s' = (r, s'')) \<or> m s = (r, s'')"
  by (auto simp: except_KeyError_def split: prod.splits sum.splits error.splits)

section \<open>The parts of the throttle check\<close>

lemma find_throttled_group_step:
  assumes "SMS_CONFIG w ''throttled_groups'' = Some (CThrottled tgs)"
    and "SMS_CONFIG w (grp @ ''_users'') = Some (CList us)"
  shows "find_throttled_group cmd user (grp # groups) (- 1) (- 1) w =
           (if user \<in> set us
            then (case tgs grp of
                    None \<Rightarrow> find_throttled_group cmd user groups (- 1) (- 1) w
                  | Some tc \<Rightarrow>
                      if limit_of tc ''all'' \<noteq> - 1 \<or> limit_of tc cmd \<noteq> - 1
                      then (Inr (Some grp, limit_of tc ''all'', limit_of tc cmd), w)
                      else find_throttled_group cmd user groups (- 1) (- 1) w)
            else find_throttled_group cmd user groups (- 1) (- 1) w)"
proof (cases "tgs grp")
  case None
  with assms show ?thesis
    by (simp add: and_then_def cfg_get_def lift_def py_in_def dom_def)
next
  case (Some tc)
  with assms show ?thesis
    by (simp add: and_then_def cfg_get_def lift_def py_in_def dom_def throttled_commands_of_def
          Let_def ret_def limit_of_def)
qed



lemma find_throttled_group_eq:
  assumes tgs: "SMS_CONFIG w ''throttled_groups'' = Some (CThrottled tgs)"
    and listed: "list_all (users_listed (SMS_CONFIG w))
                   (takeWhile (\<lambda>g. \<not> governs tgs (SMS_CONFIG w) user cmd g) groups)"
  shows "find_throttled_group cmd user groups (- 1) (- 1) w =
           (Inr (governing_group tgs (SMS_CONFIG w) user cmd groups), w)"
  using listed
proof (induction groups)
  case Nil
  show ?case by (simp add: ret_def governing_group_def)
next
  case (Cons grp groups)
  show ?case
  proof (cases "governs tgs (SMS_CONFIG w) user cmd grp")
    case True
    then obtain us tc where us: "SMS_CONFIG w (grp @ ''_users'') = Some (CList us)"
      and m: "user \<in> set us" and tc: "tgs grp = Some tc"
      and l: "limit_of tc ''all'' \<noteq> - 1 \<or> limit_of tc cmd \<noteq> - 1"
      by (auto simp: governs_def is_member_def split: option.splits cfgval.splits)
    from True tc m l show ?thesis
      by (simp add: find_throttled_group_step [OF tgs us] governing_group_def
            del: find_throttled_group.simps)
  next
    case False
    with Cons.prems have "users_listed (SMS_CONFIG w) grp"
      and rest: "list_all (users_listed (SMS_CONFIG w))
                   (takeWhile (\<lambda>g. \<not> governs tgs (SMS_CONFIG w) user cmd g) groups)"
      by simp_all
    then obtain us where us: "SMS_CONFIG w (grp @ ''_users'') = Some (CList us)"
      by (auto simp: users_listed_def split: option.splits cfgval.splits)
    from False us have skip: "user \<in> set us \<Longrightarrow> tgs grp = Some tc \<Longrightarrow>
        \<not> (limit_of tc ''all'' \<noteq> - 1 \<or> limit_of tc cmd \<noteq> - 1)" for tc
      by (simp add: governs_def is_member_def)
    have "find_throttled_group cmd user (grp # groups) (- 1) (- 1) w =
            find_throttled_group cmd user groups (- 1) (- 1) w"
      using skip
      by (simp add: find_throttled_group_step [OF tgs us] del: find_throttled_group.simps
            split: option.splits)
    with Cons.IH [OF rest] False show ?thesis
      by (simp add: governing_group_def del: find_throttled_group.simps)
  qed
qed


lemma check_limits_EDict:
  assumes "group_throttle_state_of grp ts = EDict d"
  shows "check_limits cmd grp a c ts w =
     (if a \<noteq> - 1 \<and> \<not> count_of d ''all'' < a then (Inr (PBool True), w)
      else
        let d1 = (if a \<noteq> - 1 then d(''all'' \<mapsto> count_of d ''all'' + 1) else d);
            bump = (c \<noteq> - 1 \<and> count_of d cmd < c);
            d2 = (if bump then d1(cmd \<mapsto> count_of d cmd + 1) else d1);
            flag = (if a \<noteq> - 1 \<or> bump then PBool False else PInt (- 1));
            ts' = (if a \<noteq> - 1 \<or> bump then ts(grp \<mapsto> EDict d2) else ts)
        in and_then (update_state ''throttle'' (Repr ts')) (\<lambda>_. ret flag) w)"
proof (cases "a = - 1"; cases "c = - 1"; cases "count_of d cmd < c";
       cases "count_of d ''all'' < a")
qed (use assms in \<open>simp_all add: check_limits_def apply_all_def apply_cmd_def entry_count_def
       entry_set_def lift_def and_then_def ret_def count_of_def [symmetric] Let_def\<close>)

lemma update_state_ok:
  "\<not> write_fails w \<Longrightarrow>
     update_state name v w =
       (Inr (), emit [Open_write, Lock_exclusive, Write_file, Unlock, Close]
                  (w\<lparr>STATE := set_option name v (STATE w),
                     state_file := Content (set_option name v (STATE w))\<rparr>))"
  by (simp add: update_state_def Let_def)


lemma get_state_snd: "snd (get_state name dflt w) = w"
  by (simp add: get_state_def split: option.splits)

lemma get_state_fst:
  "fst (get_state name dflt w) = Inr v \<Longrightarrow> get_state name dflt w = (Inr v, w)"
  using get_state_snd [of name dflt w] by (cases "get_state name dflt w") simp

lemma load_state_Inr:
  "load_state w = (Inr u, w1) \<Longrightarrow>
     SMS_CONFIG w1 = SMS_CONFIG w \<and> write_fails w1 = write_fails w
     \<and> trace w1 = trace w @ [Open_read, Lock_shared, Read_file, Unlock, Close]"
  by (auto simp: load_state_def emit_def split: cfg_file.splits)

lemma governing_group_first_of:
  assumes "\<forall>g\<in>set pre. \<not> governs tgs config user cmd g"
    and "governs tgs config user cmd grp"
  shows "\<exists>tc. tgs grp = Some tc
           \<and> governing_group tgs config user cmd (pre @ grp # post) =
               (Some grp, limit_of tc ''all'', limit_of tc cmd)"
proof -
  from assms(1) have "find (governs tgs config user cmd) (pre @ grp # post) =
                        find (governs tgs config user cmd) (grp # post)"
    by (induction pre) simp_all
  with assms(2) have f: "find (governs tgs config user cmd) (pre @ grp # post) = Some grp"
    by simp
  from assms(2) obtain tc where "tgs grp = Some tc"
    by (auto simp: governs_def split: option.splits)
  with f show ?thesis by (simp add: governing_group_def)
qed

lemma governing_group_none:
  assumes "\<forall>g\<in>set groups. \<not> governs tgs config user cmd g"
  shows "governing_group tgs config user cmd groups = (None, - 1, - 1)"
proof -
  from assms have "find (governs tgs config user cmd) groups = None"
    by (induction groups) simp_all
  then show ?thesis by (simp add: governing_group_def)
qed

lemma governing_group_Some:
  assumes "governing_group tgs config user cmd groups = (Some grp, a, c)"
  shows "find (governs tgs config user cmd) groups = Some grp"
  using assms by (auto simp: governing_group_def split: option.splits)




lemma load_window_eq:
  assumes loaded: "load_state w = (Inr (), w1)"
    and stored: "fst (get_state ''throttle'' (Repr Map.empty) w1) = Inr (Repr throttle_state)"
    and limit: "SMS_CONFIG w ''throttle_time_limit_seconds'' = Some lim"
    and seconds: "int_of lim = Inr seconds"
    and start: "throttle_starttime now throttle_state = Inr start"
    and stop: "dt_add_seconds start seconds = Inr stop"
    and disk: "\<not> write_fails w"
  shows "load_window now w =
          (if now = start \<or> dt_less stop now
           then (Inr (fresh_window now), persisted (fresh_window now) w1)
           else (Inr throttle_state, w1))"
proof -
  from load_state_Inr [OF loaded] limit disk
  have cfg: "cfg_get ''throttle_time_limit_seconds'' w1 = (Inr lim, w1)"
    and d: "\<not> write_fails w1"
    by (simp_all add: cfg_get_def)
  show ?thesis
    by (simp add: load_window_def and_then_def loaded get_state_fst [OF stored] lift_def
          literal_eval_def cfg seconds start stop update_state_ok [OF d] ret_def persisted_def)
qed









section \<open>What the matchers consume\<close>

text \<open>A matcher hands back a rest of the text it was given.\<close>

lemma one_of_rest: "(a, r) \<in> set (one_of cs s) \<Longrightarrow> \<exists>pre. s = pre @ r"
  by (auto simp: one_of_def split: list.splits if_splits)

lemma one_of_head: "(a, r) \<in> set (one_of cs s) \<Longrightarrow> \<exists>c. c \<in> set cs \<and> s = c # r"
  by (auto simp: one_of_def split: list.splits if_splits)

lemma followed_by_rest:
  assumes p: "\<And>s a r. (a, r) \<in> set (p s) \<Longrightarrow> \<exists>pre. s = pre @ r"
    and q: "\<And>s a r. (a, r) \<in> set (q s) \<Longrightarrow> \<exists>pre. s = pre @ r"
    and m: "(a, r) \<in> set (followed_by p q s)"
  shows "\<exists>pre. s = pre @ r"
proof -
  from m obtain a1 r1 b where 1: "(a1, r1) \<in> set (p s)" and 2: "(b, r) \<in> set (q r1)"
    by (auto simp: followed_by_def)
  from p [OF 1] q [OF 2] show ?thesis by auto
qed

lemma or_else_rest:
  assumes p: "\<And>s a r. (a, r) \<in> set (p s) \<Longrightarrow> \<exists>pre. s = pre @ r"
    and q: "\<And>s a r. (a, r) \<in> set (q s) \<Longrightarrow> \<exists>pre. s = pre @ r"
    and m: "(a, r) \<in> set (or_else p q s)"
  shows "\<exists>pre. s = pre @ r"
  using m p q by (auto simp: or_else_def)

lemma spaces_rest: "(a, r) \<in> set (spaces s) \<Longrightarrow> \<exists>pre. s = pre @ r"
proof (induction s arbitrary: a r)
  case Nil
  then show ?case by simp
next
  case (Cons c s)
  from Cons.prems consider a' where "is_space c" "(a', r) \<in> set (spaces s)" | "r = s"
    by (auto split: if_splits)
  then show ?case
  proof cases
    case 1
    from Cons.IH [OF 1(2)] obtain pre where "s = pre @ r" by blast
    then have "c # s = (c # pre) @ r" by simp
    then show ?thesis by blast
  next
    case 2
    then have "c # s = [c] @ r" by simp
    then show ?thesis by blast
  qed
qed

lemma group_then_rest:
  assumes p: "\<And>s a r. (a, r) \<in> set (p s) \<Longrightarrow> \<exists>pre. s = pre @ r"
    and q: "\<And>s a r. (a, r) \<in> set (q s) \<Longrightarrow> \<exists>pre. s = pre @ r"
    and m: "(a, r) \<in> set (group_then p q s)"
  shows "\<exists>pre. s = pre @ r"
proof -
  from m obtain a1 r1 b where 1: "(a1, r1) \<in> set (p s)" and 2: "(b, r) \<in> set (q r1)"
    by (auto simp: group_then_def)
  from p [OF 1] q [OF 2] show ?thesis by auto
qed

lemma skip_then_rest:
  assumes p: "\<And>s a r. (a, r) \<in> set (p s) \<Longrightarrow> \<exists>pre. s = pre @ r"
    and q: "\<And>s a r. (a, r) \<in> set (q s) \<Longrightarrow> \<exists>pre. s = pre @ r"
    and m: "(a, r) \<in> set (skip_then p q s)"
  shows "\<exists>pre. s = pre @ r"
proof -
  from m obtain r1 b where 1: "(a, r1) \<in> set (p s)" and 2: "(b, r) \<in> set (q r1)"
    by (auto simp: skip_then_def)
  from p [OF 1] q [OF 2] show ?thesis by auto
qed

lemmas rest_intros = one_of_rest spaces_rest

lemma re_Y_rest: "(a, r) \<in> set (re_Y s) \<Longrightarrow> \<exists>pre. s = pre @ r"
  unfolding re_Y_def any_digit_def
  by (erule followed_by_rest [rotated 2] | erule or_else_rest [rotated 2] | erule one_of_rest)+

lemma re_m_rest: "(a, r) \<in> set (re_m s) \<Longrightarrow> \<exists>pre. s = pre @ r"
  unfolding re_m_def any_digit_def
  by (erule followed_by_rest [rotated 2] | erule or_else_rest [rotated 2] | erule one_of_rest)+

lemma re_d_rest: "(a, r) \<in> set (re_d s) \<Longrightarrow> \<exists>pre. s = pre @ r"
  unfolding re_d_def any_digit_def
  by (erule followed_by_rest [rotated 2] | erule or_else_rest [rotated 2] | erule one_of_rest)+

lemma re_H_rest: "(a, r) \<in> set (re_H s) \<Longrightarrow> \<exists>pre. s = pre @ r"
  unfolding re_H_def any_digit_def
  by (erule followed_by_rest [rotated 2] | erule or_else_rest [rotated 2] | erule one_of_rest)+

lemma re_M_rest: "(a, r) \<in> set (re_M s) \<Longrightarrow> \<exists>pre. s = pre @ r"
  unfolding re_M_def any_digit_def
  by (erule followed_by_rest [rotated 2] | erule or_else_rest [rotated 2] | erule one_of_rest)+

lemma re_S_rest: "(a, r) \<in> set (re_S s) \<Longrightarrow> \<exists>pre. s = pre @ r"
  unfolding re_S_def any_digit_def
  by (erule followed_by_rest [rotated 2] | erule or_else_rest [rotated 2] | erule one_of_rest)+


lemma re_date_rest: "(a, r) \<in> set (re_date s) \<Longrightarrow> \<exists>pre. s = pre @ r"
  unfolding re_date_def
  by (erule group_then_rest [rotated 2] | erule skip_then_rest [rotated 2] | erule one_of_rest
      | erule re_Y_rest | erule re_m_rest | erule re_d_rest | simp)+

lemma re_time_rest:
  assumes p: "\<And>s a r. (a, r) \<in> set (p s) \<Longrightarrow> \<exists>pre. s = pre @ r"
  shows "(a, r) \<in> set (re_time p s) \<Longrightarrow> \<exists>pre. s = pre @ r"
  unfolding re_time_def
  by (erule group_then_rest [rotated 2] | erule skip_then_rest [rotated 2] | erule one_of_rest
      | erule re_H_rest | erule re_M_rest | erule re_S_rest | erule p)+

lemma format_regex_dot:
  assumes "(gs, r) \<in> set (format_regex s)"
  shows "CHR ''.'' \<in> set s"
proof -
  let ?p = "re_time (skip_then re_date spaces)"
  from assms obtain gs1 r1 where "(gs1, r1) \<in> set (skip_then ?p (one_of ''.'') s)"
    by (auto simp: format_regex_def group_then_def)
  then obtain r0 b where 1: "(gs1, r0) \<in> set (?p s)" and 2: "(b, r1) \<in> set (one_of ''.'' r0)"
    by (auto simp: skip_then_def)
  have "\<exists>pre. s = pre @ r0"
    using 1
    by (rule re_time_rest [rotated])
       (erule skip_then_rest [rotated 2] | erule re_date_rest | erule spaces_rest)+
  moreover from one_of_head [OF 2] have "r0 = CHR ''.'' # r1" by simp
  ultimately show ?thesis by auto
qed

lemma digit_char_digit: "digit_char n \<in> set ''0123456789''"
proof -
  have "n mod 10 < length ''0123456789''" by simp
  then have "''0123456789'' ! (n mod 10) \<in> set ''0123456789''" by (rule nth_mem)
  then show ?thesis by (simp only: digit_char_def)
qed

lemma digit_char_not_dot: "digit_char n \<noteq> CHR ''.''"
  using digit_char_digit [of n] by auto

lemma dt_str_no_dot: "microsecond d = 0 \<Longrightarrow> CHR ''.'' \<notin> set (dt_str d)"
  by (simp add: dt_str_def pad4_def pad2_def digit_char_not_dot digit_char_not_dot [symmetric])

text \<open>A text without a dot is rejected: every match of the format has one.\<close>

lemma strptime_no_dot:
  assumes "CHR ''.'' \<notin> set s"
  shows "strptime s = Inl ValueError"
proof (cases "format_regex s")
  case Nil
  then show ?thesis by (simp add: strptime_def)
next
  case (Cons m ms)
  obtain gs r where "m = (gs, r)" by (cases m) auto
  with Cons have "(gs, r) \<in> set (format_regex s)" by simp
  from format_regex_dot [OF this] assms show ?thesis by simp
qed

section \<open>What \<^verbatim>\<open>sms()\<close> leaves in \<^verbatim>\<open>_WHO_CAN\<close>\<close>

text \<open>
  Only the loop over the commands adds keys to \<^verbatim>\<open>_WHO_CAN\<close>; everything else keeps its
  keys, whether it returns or raises.
\<close>

lemma cfg_get_state: "cfg_get k g = (r, g') \<Longrightarrow> g' = g"
  by (auto simp: cfg_get_def split: option.splits)

lemma cfg_set_who: "cfg_set k v g = (r, g') \<Longrightarrow> WHO_CAN g' = WHO_CAN g"
  by (auto simp: cfg_set_def)

lemma warn_who: "warn msg g = (r, g') \<Longrightarrow> WHO_CAN g' = WHO_CAN g"
  by (auto simp: warn_def)

lemma cfg_as_list_state: "cfg_as_list k g = (r, g') \<Longrightarrow> g' = g"
  by (auto simp: cfg_as_list_def dest!: and_then_cases cfg_get_state)

lemma cfg_listify_who: "cfg_listify k g = (r, g') \<Longrightarrow> WHO_CAN g' = WHO_CAN g"
  by (auto simp: cfg_listify_def ret_def dest!: and_then_cases cfg_as_list_state cfg_set_who)

lemma cfg_listify_optional_who: "cfg_listify_optional k g = (r, g') \<Longrightarrow> WHO_CAN g' = WHO_CAN g"
  by (auto simp: cfg_listify_optional_def ret_def
           dest!: except_KeyError_cases and_then_cases cfg_listify_who cfg_set_who)

lemma who_can_add_dom: "who_can_add cmd users g = (r, g') \<Longrightarrow> dom (WHO_CAN g') = dom (WHO_CAN g)"
proof (induction users arbitrary: g)
  case Nil
  then show ?case by (simp add: ret_def)
next
  case (Cons user users)
  show ?case
  proof (cases "WHO_CAN g cmd")
    case None
    with Cons.prems show ?thesis by (simp add: and_then_def)
  next
    case (Some us)
    with Cons.prems
    have "who_can_add cmd users (g\<lparr>WHO_CAN := (WHO_CAN g)(cmd \<mapsto> insert user us)\<rparr>) = (r, g')"
      by (simp add: and_then_def)
    from Cons.IH [OF this] Some show ?thesis
      by (auto simp: dom_def split: if_splits)
  qed
qed

lemma sms_grants_dom: "sms_grants cmds users g = (r, g') \<Longrightarrow> dom (WHO_CAN g') = dom (WHO_CAN g)"
proof (induction cmds arbitrary: g)
  case Nil
  then show ?case by (simp add: ret_def)
next
  case (Cons cmd cmds)
  from Cons.prems have "and_then (who_can_add cmd users) (\<lambda>_. sms_grants cmds users) g = (r, g')"
    by simp
  then consider e where "who_can_add cmd users g = (Inl e, g')"
    | a s' where "who_can_add cmd users g = (Inr a, s')" "sms_grants cmds users s' = (r, g')"
    by (blast dest: and_then_cases)
  then show ?case
  proof cases
    case 1
    then show ?thesis by (rule who_can_add_dom)
  next
    case 2
    from who_can_add_dom [OF 2(1)] Cons.IH [OF 2(2)] show ?thesis by simp
  qed
qed

lemma throttle_definitions_who:
  "throttle_definitions grp ds tg g = (r, g') \<Longrightarrow> WHO_CAN g' = WHO_CAN g"
proof (induction ds arbitrary: tg g)
  case Nil
  then show ?case by (simp add: ret_def)
next
  case (Cons d ds)
  from Cons.prems show ?case
    by (auto simp: Let_def raise_def split: if_splits option.splits
             dest!: and_then_cases warn_who Cons.IH)
qed

lemma set_throttled_group_who: "set_throttled_group grp tg g = (r, g') \<Longrightarrow> WHO_CAN g' = WHO_CAN g"
  by (auto simp: set_throttled_group_def raise_def split: cfgval.splits
           dest!: and_then_cases cfg_get_state cfg_set_who)

lemma sms_throttle_who: "sms_throttle grp g = (r, g') \<Longrightarrow> WHO_CAN g' = WHO_CAN g"
  by (auto simp: sms_throttle_def
           dest!: except_KeyError_cases and_then_cases cfg_as_list_state throttle_definitions_who
                  set_throttled_group_who warn_who)

lemma sms_group_step_dom:
  assumes "and_then (cfg_listify_optional (grp @ ''_users'')) (\<lambda>users.
           and_then (cfg_listify_optional (grp @ ''_commands'')) (\<lambda>commands.
           and_then (sms_grants commands users) (\<lambda>_. sms_throttle grp))) g = (r, g')"
  shows "dom (WHO_CAN g') = dom (WHO_CAN g)"
  using assms
  by (fastforce dest!: and_then_cases dest: cfg_listify_optional_who sms_grants_dom sms_throttle_who)

lemma sms_groups_unfold:
  "sms_groups (grp # groups) =
     and_then (and_then (cfg_listify_optional (grp @ ''_users'')) (\<lambda>users.
           and_then (cfg_listify_optional (grp @ ''_commands'')) (\<lambda>commands.
           and_then (sms_grants commands users) (\<lambda>_. sms_throttle grp)))) (\<lambda>_. sms_groups groups)"
  by (rule ext) (simp add: and_then_def split: prod.splits sum.splits)

lemma sms_groups_dom: "sms_groups groups g = (r, g') \<Longrightarrow> dom (WHO_CAN g') = dom (WHO_CAN g)"
proof (induction groups arbitrary: g)
  case Nil
  then show ?case by (simp add: ret_def)
next
  case (Cons grp groups)
  from Cons.prems [unfolded sms_groups_unfold]
  consider e where
      "and_then (cfg_listify_optional (grp @ ''_users'')) (\<lambda>users.
       and_then (cfg_listify_optional (grp @ ''_commands'')) (\<lambda>commands.
       and_then (sms_grants commands users) (\<lambda>_. sms_throttle grp))) g = (Inl e, g')"
    | a s' where
      "and_then (cfg_listify_optional (grp @ ''_users'')) (\<lambda>users.
       and_then (cfg_listify_optional (grp @ ''_commands'')) (\<lambda>commands.
       and_then (sms_grants commands users) (\<lambda>_. sms_throttle grp))) g = (Inr a, s')"
      "sms_groups groups s' = (r, g')"
    by (blast dest: and_then_cases)
  then show ?case
  proof cases
    case 1
    then show ?thesis by (rule sms_group_step_dom)
  next
    case 2
    from sms_group_step_dom [OF 2(1)] Cons.IH [OF 2(2)] show ?thesis by simp
  qed
qed

lemma sms_commands_dom:
  "sms_commands cmds g = (Inr u, g') \<Longrightarrow> dom (WHO_CAN g') = dom (WHO_CAN g) \<union> set cmds"
proof (induction cmds arbitrary: g)
  case Nil
  then show ?case by (simp add: ret_def)
next
  case (Cons cmd cmds)
  from Cons.prems obtain xs g1 where
    1: "cfg_listify_optional (cmd @ ''_aliases'') g = (Inr xs, g1)" and
    2: "sms_commands cmds (g1\<lparr>WHO_CAN := (WHO_CAN g1)(cmd \<mapsto> {})\<rparr>) = (Inr u, g')"
    by (auto simp: and_then_Inr)
  from cfg_listify_optional_who [OF 1] Cons.IH [OF 2] show ?case by auto
qed

lemma cfg_listify_eq:
  "cfg_listify k g =
     (case SMS_CONFIG g k of
        None \<Rightarrow> (Inl KeyError, g)
      | Some v \<Rightarrow>
          (case v of
             CStr s \<Rightarrow> (Inr (as_list s (CHR '','')),
                        g\<lparr>SMS_CONFIG := (SMS_CONFIG g)(k \<mapsto> CList (as_list s (CHR '','')))\<rparr>)
           | _ \<Rightarrow> (Inl AttributeError, g)))"
  by (simp add: cfg_listify_def cfg_as_list_def cfg_get_def cfg_set_def as_list_of_def
                and_then_def ret_def
           split: option.splits cfgval.splits)

lemma cfg_listify_Inr:
  assumes "cfg_listify k g = (Inr xs, g')"
  shows "\<exists>s. SMS_CONFIG g k = Some (CStr s) \<and> xs = as_list s (CHR '','')
           \<and> g' = g\<lparr>SMS_CONFIG := (SMS_CONFIG g)(k \<mapsto> CList xs)\<rparr>"
proof (cases "SMS_CONFIG g k")
  case None
  with assms show ?thesis by (simp add: cfg_listify_eq)
next
  case (Some v)
  with assms show ?thesis by (cases v) (auto simp: cfg_listify_eq)
qed

text \<open>
  After a successful build the keys of \<^verbatim>\<open>_WHO_CAN\<close> are \<open>all\<close> and the configured commands,
  and the blacklist is a list.
\<close>

lemma sms_build_Inr:
  assumes "sms_build items g0 = (Inr u, g)"
  shows "\<exists>cs bl. items ''commands'' = Some (Some cs)
           \<and> dom (WHO_CAN g) = insert ''all'' (set (as_list cs (CHR '','')))
           \<and> SMS_CONFIG g ''blacklist'' = Some (CList bl)"
proof -
  define g1 where "g1 = g0\<lparr>SMS_CONFIG := map_option raw_value \<circ> items, WHO_CAN := [''all'' \<mapsto> {}]\<rparr>"
  from assms have "and_then (cfg_listify ''commands'') (\<lambda>commands.
     and_then (sms_commands commands) (\<lambda>_.
     and_then (cfg_listify ''groups'') (\<lambda>groups.
     and_then (cfg_set ''throttled_groups'' (CThrottled Map.empty)) (\<lambda>_.
     and_then (sms_groups groups) (\<lambda>_.
     and_then (cfg_listify ''blacklist'') (\<lambda>_. ret ())))))) g1 = (Inr u, g)"
    by (simp add: sms_build_def and_then_def g1_def)
  then obtain commands g2 where
    c: "cfg_listify ''commands'' g1 = (Inr commands, g2)" and
    r2: "and_then (sms_commands commands) (\<lambda>_.
     and_then (cfg_listify ''groups'') (\<lambda>groups.
     and_then (cfg_set ''throttled_groups'' (CThrottled Map.empty)) (\<lambda>_.
     and_then (sms_groups groups) (\<lambda>_.
     and_then (cfg_listify ''blacklist'') (\<lambda>_. ret ()))))) g2 = (Inr u, g)"
    by (rule and_then_InrE)
  from r2 obtain u3 g3 where
    l: "sms_commands commands g2 = (Inr u3, g3)" and
    r3: "and_then (cfg_listify ''groups'') (\<lambda>groups.
     and_then (cfg_set ''throttled_groups'' (CThrottled Map.empty)) (\<lambda>_.
     and_then (sms_groups groups) (\<lambda>_.
     and_then (cfg_listify ''blacklist'') (\<lambda>_. ret ())))) g3 = (Inr u, g)"
    by (rule and_then_InrE)
  from r3 obtain groups g4 where
    gs: "cfg_listify ''groups'' g3 = (Inr groups, g4)" and
    r4: "and_then (cfg_set ''throttled_groups'' (CThrottled Map.empty)) (\<lambda>_.
     and_then (sms_groups groups) (\<lambda>_.
     and_then (cfg_listify ''blacklist'') (\<lambda>_. ret ()))) g4 = (Inr u, g)"
    by (rule and_then_InrE)
  from r4 obtain u5 g5 where
    t: "cfg_set ''throttled_groups'' (CThrottled Map.empty) g4 = (Inr u5, g5)" and
    r5: "and_then (sms_groups groups) (\<lambda>_.
     and_then (cfg_listify ''blacklist'') (\<lambda>_. ret ())) g5 = (Inr u, g)"
    by (rule and_then_InrE)
  from r5 obtain u6 g6 where
    gl: "sms_groups groups g5 = (Inr u6, g6)" and
    r6: "and_then (cfg_listify ''blacklist'') (\<lambda>_. ret ()) g6 = (Inr u, g)"
    by (rule and_then_InrE)
  from r6 obtain bl where b: "cfg_listify ''blacklist'' g6 = (Inr bl, g)"
    by (auto elim!: and_then_InrE simp: ret_def)
  from cfg_listify_Inr [OF c] obtain cs where
    cs: "SMS_CONFIG g1 ''commands'' = Some (CStr cs)" "commands = as_list cs (CHR '','')"
    by blast
  from cs(1) have 1: "items ''commands'' = Some (Some cs)"
    by (auto simp: g1_def raw_value_def split: option.splits)
  have 2: "dom (WHO_CAN g) = insert ''all'' (set (as_list cs (CHR '','')))"
    using cfg_listify_who [OF c] sms_commands_dom [OF l] cfg_listify_who [OF gs]
      cfg_set_who [OF t] sms_groups_dom [OF gl] cfg_listify_who [OF b]
    by (simp add: g1_def cs(2))
  from cfg_listify_Inr [OF b] have 3: "SMS_CONFIG g ''blacklist'' = Some (CList bl)"
    by auto
  from 1 2 3 show ?thesis by (intro exI conjI)
qed

lemma sms_fresh_Inr:
  assumes "SMS_CONFIG g0 = Map.empty" and "sms items g0 = (Inr config, g)"
  shows "sms_build items g0 = (Inr (), g) \<and> config = SMS_CONFIG g"
  using assms by (auto simp: sms_def and_then_def split: prod.splits sum.splits)

lemma sms_fresh_ok:
  assumes "SMS_CONFIG g0 = Map.empty" and "fst (sms_build items g0) = Inr ()"
  shows "sms items g0 =
           (Inr (SMS_CONFIG (snd (sms_build items g0))), snd (sms_build items g0))"
  using assms by (cases "sms_build items g0") (simp add: sms_def and_then_def)

lemma sms_cached:
  "SMS_CONFIG g k = Some v \<Longrightarrow> sms items g = (Inr (SMS_CONFIG g), g)"
  by (auto simp: sms_def)

section \<open>Permissions\<close>

text \<open>
  C1. In a process where \<^verbatim>\<open>sms()\<close> has built the configuration, for every user and every
  command of the configured command list, \<^verbatim>\<open>has_permission\<close> returns \<^verbatim>\<open>True\<close> exactly when
  the user is not in the blacklist and is in \<^verbatim>\<open>_WHO_CAN['all']\<close>, or \<open>all\<close> is in
  \<^verbatim>\<open>_WHO_CAN[cmd]\<close>, or the user is in \<^verbatim>\<open>_WHO_CAN[cmd]\<close>. For a blacklisted user the right-hand
  side is \<^verbatim>\<open>False\<close> whatever the grants are.
\<close>

theorem has_permission_iff:
  assumes fresh: "SMS_CONFIG g0 = Map.empty"
    and built: "sms items g0 = (Inr config, g)"
    and commands: "items ''commands'' = Some (Some cs)"
    and cmd: "cmd \<in> set (as_list cs (CHR '',''))"
  shows "\<exists>blacklist everything us.
           config ''blacklist'' = Some (CList blacklist)
           \<and> WHO_CAN g ''all'' = Some everything \<and> WHO_CAN g cmd = Some us
           \<and> has_permission items user cmd g =
               (Inr (user \<notin> set blacklist \<and> (user \<in> everything \<or> ''all'' \<in> us \<or> user \<in> us)), g)"
proof -
  from sms_fresh_Inr [OF fresh built] have b: "sms_build items g0 = (Inr (), g)"
    and config: "config = SMS_CONFIG g" by simp_all
  from sms_build_Inr [OF b] commands obtain bl where
    d: "dom (WHO_CAN g) = insert ''all'' (set (as_list cs (CHR '','')))" and
    bl: "SMS_CONFIG g ''blacklist'' = Some (CList bl)"
    by auto
  from d obtain everything where e: "WHO_CAN g ''all'' = Some everything" by blast
  from d cmd obtain us where us: "WHO_CAN g cmd = Some us" by blast
  have "has_permission items user cmd g =
          (Inr (user \<notin> set bl \<and> (user \<in> everything \<or> ''all'' \<in> us \<or> user \<in> us)), g)"
    by (simp add: has_permission_def sms_cached [OF bl] and_then_def bl e us py_in_def
          who_can_def ret_def)
  with bl e us config show ?thesis by blast
qed

theorem has_permission_iff_witness:
  "SMS_CONFIG initial_world = Map.empty
   \<and> example_items ''commands'' = Some (Some ''play, volume'')
   \<and> ''play'' \<in> set (as_list ''play, volume'' (CHR '',''))
   \<and> (\<exists>config g. sms example_items initial_world = (Inr config, g)
        \<and> (\<exists>blacklist everything us.
              config ''blacklist'' = Some (CList blacklist)
              \<and> WHO_CAN g ''all'' = Some everything \<and> WHO_CAN g ''play'' = Some us
              \<and> has_permission example_items ''bob'' ''play'' g =
                  (Inr (''bob'' \<notin> set blacklist
                        \<and> (''bob'' \<in> everything \<or> ''all'' \<in> us \<or> ''bob'' \<in> us)), g)))
   \<and> fst (has_permission example_items ''bob'' ''play'' initial_world) = Inr True
   \<and> fst (has_permission example_items ''eve'' ''play'' initial_world) = Inr False"
proof -
  have fresh: "SMS_CONFIG initial_world = Map.empty"
    by (simp add: initial_world_def)
  have commands: "example_items ''commands'' = Some (Some ''play, volume'')"
    by (simp add: example_items_def)
  have cmd: "''play'' \<in> set (as_list ''play, volume'' (CHR '',''))"
    by (simp add: string_defs)
  have "fst (sms_build example_items initial_world) = Inr ()"
    by (simp add: example_items_def initial_world_def prog_defs string_defs sms_defs)
  note built = sms_fresh_ok [OF fresh this]
  note concl = has_permission_iff [OF fresh built commands cmd, of "''bob''"]
  have bob: "fst (has_permission example_items ''bob'' ''play'' initial_world) = Inr True"
    by (simp add: example_items_def initial_world_def prog_defs string_defs sms_defs)
  have eve: "fst (has_permission example_items ''eve'' ''play'' initial_world) = Inr False"
    by (simp add: example_items_def initial_world_def prog_defs string_defs sms_defs)
  show ?thesis
    apply (intro conjI)
        apply (rule fresh)
       apply (rule commands)
      apply (rule cmd)
     apply (rule exI, rule exI, rule conjI, rule built, rule concl)
    apply (rule bob)
    apply (rule eve)
    done
qed

text \<open>
  C10, as stated, fails: for a command that is not configured the function still returns
  a verdict for a blacklisted user, since \<^verbatim>\<open>_WHO_CAN[cmd]\<close> is not looked up then.
\<close>

theorem has_permission_unconfigured_counterexample:
  "example_items ''commands'' = Some (Some ''play, volume'')
   \<and> ''stop'' \<notin> set (as_list ''play, volume'' (CHR '',''))
   \<and> fst (has_permission example_items ''eve'' ''stop'' initial_world) = Inr False"
  by (simp add: example_items_def initial_world_def prog_defs string_defs sms_defs)

text \<open>
  C10, amended. For a command that is neither in the configured command list nor \<open>all\<close>,
  \<^verbatim>\<open>has_permission\<close> returns \<^verbatim>\<open>False\<close> for a blacklisted user, \<^verbatim>\<open>True\<close> for a user of
  \<^verbatim>\<open>_WHO_CAN['all']\<close> who is not blacklisted, and raises \<open>KeyError\<close> for every other user.
\<close>

theorem has_permission_unconfigured:
  assumes fresh: "SMS_CONFIG g0 = Map.empty"
    and built: "sms items g0 = (Inr config, g)"
    and commands: "items ''commands'' = Some (Some cs)"
    and cmd: "cmd \<notin> set (as_list cs (CHR '','')) \<and> cmd \<noteq> ''all''"
  shows "\<exists>blacklist everything.
           config ''blacklist'' = Some (CList blacklist) \<and> WHO_CAN g ''all'' = Some everything
           \<and> has_permission items user cmd g =
               (if user \<in> set blacklist then Inr False
                else if user \<in> everything then Inr True else Inl KeyError, g)"
proof -
  from sms_fresh_Inr [OF fresh built] have b: "sms_build items g0 = (Inr (), g)"
    and config: "config = SMS_CONFIG g" by simp_all
  from sms_build_Inr [OF b] commands obtain bl where
    d: "dom (WHO_CAN g) = insert ''all'' (set (as_list cs (CHR '','')))" and
    bl: "SMS_CONFIG g ''blacklist'' = Some (CList bl)"
    by auto
  from d obtain everything where e: "WHO_CAN g ''all'' = Some everything" by blast
  from d cmd have us: "WHO_CAN g cmd = None" by blast
  have "has_permission items user cmd g =
          (if user \<in> set bl then Inr False
           else if user \<in> everything then Inr True else Inl KeyError, g)"
    by (simp add: has_permission_def sms_cached [OF bl] and_then_def bl e us py_in_def
          who_can_def ret_def)
  with bl e config show ?thesis by blast
qed

theorem has_permission_unconfigured_witness:
  "SMS_CONFIG initial_world = Map.empty
   \<and> example_items ''commands'' = Some (Some ''play, volume'')
   \<and> (''stop'' \<notin> set (as_list ''play, volume'' (CHR '','')) \<and> ''stop'' \<noteq> ''all'')
   \<and> (\<exists>config g. sms example_items initial_world = (Inr config, g)
        \<and> (\<exists>blacklist everything.
              config ''blacklist'' = Some (CList blacklist) \<and> WHO_CAN g ''all'' = Some everything
              \<and> has_permission example_items ''bob'' ''stop'' g =
                  (if ''bob'' \<in> set blacklist then Inr False
                   else if ''bob'' \<in> everything then Inr True else Inl KeyError, g)))
   \<and> fst (has_permission example_items ''bob'' ''stop'' initial_world) = Inl KeyError
   \<and> fst (has_permission example_items ''alice'' ''stop'' initial_world) = Inr True"
proof -
  have fresh: "SMS_CONFIG initial_world = Map.empty"
    by (simp add: initial_world_def)
  have commands: "example_items ''commands'' = Some (Some ''play, volume'')"
    by (simp add: example_items_def)
  have cmd: "''stop'' \<notin> set (as_list ''play, volume'' (CHR '','')) \<and> ''stop'' \<noteq> ''all''"
    by (simp add: string_defs)
  have "fst (sms_build example_items initial_world) = Inr ()"
    by (simp add: example_items_def initial_world_def prog_defs string_defs sms_defs)
  note built = sms_fresh_ok [OF fresh this]
  note concl = has_permission_unconfigured [OF fresh built commands cmd, of "''bob''"]
  have bob: "fst (has_permission example_items ''bob'' ''stop'' initial_world) = Inl KeyError"
    by (simp add: example_items_def initial_world_def prog_defs string_defs sms_defs)
  have alice: "fst (has_permission example_items ''alice'' ''stop'' initial_world) = Inr True"
    by (simp add: example_items_def initial_world_def prog_defs string_defs sms_defs)
  show ?thesis
    apply (intro conjI)
         apply (rule fresh)
        apply (rule commands)
       apply (rule cmd [THEN conjunct1])
      apply (rule cmd [THEN conjunct2])
     apply (rule exI, rule exI, rule conjI, rule built, rule concl)
    apply (rule bob)
    apply (rule alice)
    done
qed

section \<open>Throttle definitions\<close>

text \<open>What the loop returns does not depend on the warnings issued so far.\<close>

lemma throttle_definitions_result_state:
  "fst (throttle_definitions grp ds tg g) = fst (throttle_definitions grp ds tg g')"
proof (induction ds arbitrary: tg g g')
  case Nil
  show ?case by (simp add: ret_def)
next
  case (Cons d ds)
  show ?case
  proof (cases "length (str_split (CHR '':'') d) \<noteq> 2")
    case True
    then show ?thesis
      using Cons.IH by (simp add: and_then_def warn_def)
  next
    case False
    then show ?thesis
      using Cons.IH by (simp add: raise_def Let_def split: option.splits)
  qed
qed

text \<open>The loop leaves the configuration as it is: it only issues warnings.\<close>

lemma throttle_definitions_config:
  "SMS_CONFIG (snd (throttle_definitions grp ds tg g)) = SMS_CONFIG g"
proof (induction ds arbitrary: tg g)
  case Nil
  show ?case by (simp add: ret_def)
next
  case (Cons d ds)
  show ?case
  proof (cases "length (str_split (CHR '':'') d) \<noteq> 2")
    case True
    then show ?thesis
      using Cons.IH [of tg "g\<lparr>warnings := warnings g @ [throttle_warning grp (str_split (CHR '':'') d)]\<rparr>"]
      by (simp add: and_then_def warn_def)
  next
    case False
    then show ?thesis
      using Cons.IH by (simp add: raise_def Let_def split: option.splits)
  qed
qed

text \<open>
  A definition with two parts whose limit \<^verbatim>\<open>int()\<close> rejects makes the loop raise
  \<open>ValueError\<close>, wherever it stands in the list.
\<close>

lemma throttle_definitions_raises:
  assumes "d \<in> set ds"
    and "length (str_split (CHR '':'') d) = 2"
    and "py_int (str_split (CHR '':'') d ! 1) = None"
  shows "fst (throttle_definitions grp ds tg g) = Inl ValueError"
  using assms(1)
proof (induction ds arbitrary: tg g)
  case Nil
  then show ?case by simp
next
  case (Cons x xs)
  show ?case
  proof (cases "length (str_split (CHR '':'') x) \<noteq> 2")
    case True
    with assms(2) Cons.prems have "d \<in> set xs" by auto
    from Cons.IH [OF this] True show ?thesis
      by (simp add: and_then_def warn_def)
  next
    case False
    show ?thesis
    proof (cases "py_int (str_split (CHR '':'') x ! 1)")
      case None
      with False show ?thesis by (simp add: raise_def Let_def)
    next
      case (Some n)
      with assms(3) Cons.prems have "d \<in> set xs" by auto
      from Cons.IH [OF this] False Some show ?thesis
        by (simp add: Let_def)
    qed
  qed
qed

text \<open>
  The definitions that do not split on \<open>:\<close> into exactly two parts are skipped and the
  loop goes on: the loop returns what it returns for the list without these definitions,
  and when it returns a dictionary it has issued one warning for each of them, in their
  order.
\<close>

lemma throttle_definitions_skip:
  "fst (throttle_definitions grp ds tg g) =
     fst (throttle_definitions grp
            (filter (\<lambda>d. length (str_split (CHR '':'') d) = 2) ds) tg g)
   \<and> (\<forall>tg'. fst (throttle_definitions grp ds tg g) = Inr tg' \<longrightarrow>
         warnings (snd (throttle_definitions grp ds tg g)) =
           warnings g @ map (\<lambda>d. throttle_warning grp (str_split (CHR '':'') d))
                          (filter (\<lambda>d. length (str_split (CHR '':'') d) \<noteq> 2) ds))"
proof (induction ds arbitrary: tg g)
  case Nil
  show ?case by (simp add: ret_def)
next
  case (Cons d ds)
  show ?case
  proof (cases "length (str_split (CHR '':'') d) \<noteq> 2")
    case True
    let ?g = "g\<lparr>warnings := warnings g @ [throttle_warning grp (str_split (CHR '':'') d)]\<rparr>"
    from True have step: "throttle_definitions grp (d # ds) tg g = throttle_definitions grp ds tg ?g"
      by (simp add: and_then_def warn_def)
    have "fst (throttle_definitions grp ds tg ?g) =
            fst (throttle_definitions grp
                   (filter (\<lambda>d. length (str_split (CHR '':'') d) = 2) ds) tg g)"
      using Cons.IH [of tg ?g] throttle_definitions_result_state [of grp _ tg ?g g] by simp
    with True step Cons.IH [of tg ?g] show ?thesis by simp
  next
    case False
    show ?thesis
    proof (cases "py_int (str_split (CHR '':'') d ! 1)")
      case None
      with False show ?thesis by (simp add: raise_def Let_def)
    next
      case (Some n)
      let ?tg = "tg(str_split (CHR '':'') d ! 0 \<mapsto> n)"
      have "fst (throttle_definitions grp ds ?tg g) =
              fst (throttle_definitions grp
                     (filter (\<lambda>d. length (str_split (CHR '':'') d) = 2) ds) ?tg g)
            \<and> (\<forall>tg'. fst (throttle_definitions grp ds ?tg g) = Inr tg' \<longrightarrow>
                  warnings (snd (throttle_definitions grp ds ?tg g)) =
                    warnings g @ map (\<lambda>d. throttle_warning grp (str_split (CHR '':'') d))
                                   (filter (\<lambda>d. length (str_split (CHR '':'') d) \<noteq> 2) ds))"
        by (rule Cons.IH)
      with False Some show ?thesis
        by (simp add: Let_def)
    qed
  qed
qed

lemma throttle_definitions_skip_example:
  "fst (throttle_definitions ''guest'' [''all:100'', ''volume'', ''a:b:c'', ''play:2''] Map.empty initial_world)
     = fst (throttle_definitions ''guest'' [''all:100'', ''play:2''] Map.empty initial_world)
   \<and> (\<exists>tg'. fst (throttle_definitions ''guest'' [''all:100'', ''volume'', ''a:b:c'', ''play:2''] Map.empty initial_world) = Inr tg'
        \<and> tg' ''all'' = Some 100 \<and> tg' ''play'' = Some 2 \<and> tg' ''volume'' = None)
   \<and> warnings (snd (throttle_definitions ''guest'' [''all:100'', ''volume'', ''a:b:c'', ''play:2''] Map.empty initial_world))
       = [''guest_throttle definitions should be in the form [command]:<limit> - volume'',
          ''guest_throttle definitions should be in the form [command]:<limit> - a:b:c'']"
proof -
  let ?ds = "[''all:100'', ''volume'', ''a:b:c'', ''play:2'']"
  let ?r = "throttle_definitions ''guest'' ?ds Map.empty initial_world"
  note skip = throttle_definitions_skip [of "''guest''" ?ds Map.empty initial_world]
  have f: "filter (\<lambda>d. length (str_split (CHR '':'') d) = 2) ?ds = [''all:100'', ''play:2'']"
    by simp
  have r: "fst ?r = Inr [''all'' \<mapsto> 100, ''play'' \<mapsto> 2]"
    by (simp add: prog_defs string_defs warn_def)
  from skip f have 1: "fst ?r = fst (throttle_definitions ''guest'' [''all:100'', ''play:2''] Map.empty initial_world)"
    by simp
  from skip r have "warnings (snd ?r) = warnings initial_world @ map (\<lambda>d. throttle_warning ''guest'' (str_split (CHR '':'') d))
                          (filter (\<lambda>d. length (str_split (CHR '':'') d) \<noteq> 2) ?ds)"
    by blast
  then have 3: "warnings (snd ?r) = [''guest_throttle definitions should be in the form [command]:<limit> - volume'',
          ''guest_throttle definitions should be in the form [command]:<limit> - a:b:c'']"
    by (simp add: initial_world_def throttle_warning_def)
  from r have 2: "\<exists>tg'. fst ?r = Inr tg' \<and> tg' ''all'' = Some 100 \<and> tg' ''play'' = Some 2 \<and> tg' ''volume'' = None"
    by simp
  from 1 2 3 show ?thesis by (intro conjI)
qed

text \<open>
  C7. The claim holds for a definition that does not have two parts, and the code misses
  it for a definition whose limit is not an integer: when the option
  \<^verbatim>\<open><group>_throttle\<close> has such a definition, \<^verbatim>\<open>int()\<close> raises \<open>ValueError\<close> in the loop,
  the handler of the block, which is for \<open>KeyError\<close>, does not take it, and the block raises
  \<open>ValueError\<close> with nothing stored for the group. No warning of the handler is issued,
  whose message is for a definition \<^emph>\<open>configured incorrectly\<close>.
\<close>

theorem bad_limit_aborts:
  assumes defs: "SMS_CONFIG g (grp @ ''_throttle'') = Some (CStr s)"
    and token: "d \<in> set (as_list s (CHR '',''))"
    and parts: "length (str_split (CHR '':'') d) = 2"
    and limit: "py_int (str_split (CHR '':'') d ! 1) = None"
  shows "fst (throttle_definitions grp (as_list s (CHR '','')) Map.empty g) = Inl ValueError
       \<and> fst (sms_throttle grp g) = Inl ValueError
       \<and> SMS_CONFIG (snd (sms_throttle grp g)) = SMS_CONFIG g"
proof -
  let ?ds = "as_list s (CHR '','')"
  have 1: "fst (throttle_definitions grp ?ds Map.empty g) = Inl ValueError"
    using token parts limit by (rule throttle_definitions_raises)
  then obtain g' where p: "throttle_definitions grp ?ds Map.empty g = (Inl ValueError, g')"
    by (cases "throttle_definitions grp ?ds Map.empty g") auto
  from defs have l: "cfg_as_list (grp @ ''_throttle'') g = (Inr ?ds, g)"
    by (simp add: cfg_as_list_def cfg_get_def and_then_def as_list_of_def)
  have s: "sms_throttle grp g = (Inl ValueError, g')"
    by (simp add: sms_throttle_def except_KeyError_def and_then_def l p)
  from s have 2: "fst (sms_throttle grp g) = Inl ValueError" by simp
  from throttle_definitions_config [of grp ?ds Map.empty g] p s
  have 3: "SMS_CONFIG (snd (sms_throttle grp g)) = SMS_CONFIG g" by simp
  from 1 2 3 show ?thesis by (intro conjI)
qed

text \<open>
  For \<^verbatim>\<open>guest_throttle = play:abc, all:100\<close>: the loop and the block raise; the same list
  with \<^verbatim>\<open>play\<close> in the place of \<^verbatim>\<open>play:abc\<close> is parsed, with a warning. \<^verbatim>\<open>sms()\<close> raises, the
  blacklist, parsed last, is still the raw string, and the next call of \<^verbatim>\<open>sms()\<close> returns
  the dictionary as the first call has left it.
\<close>

theorem bad_limit_aborts_witness:
  "SMS_CONFIG bad_limit_world (''guest'' @ ''_throttle'') = Some (CStr ''play:abc, all:100'')
   \<and> as_list ''play:abc, all:100'' (CHR '','') = [''play:abc'', ''all:100'']
   \<and> ''play:abc'' \<in> set (as_list ''play:abc, all:100'' (CHR '',''))
   \<and> str_split (CHR '':'') ''play:abc'' = [''play'', ''abc'']
   \<and> length (str_split (CHR '':'') ''play:abc'') = 2
   \<and> py_int (str_split (CHR '':'') ''play:abc'' ! 1) = None
   \<and> fst (throttle_definitions ''guest'' [''play:abc'', ''all:100''] Map.empty bad_limit_world)
       = Inl ValueError
   \<and> fst (sms_throttle ''guest'' bad_limit_world) = Inl ValueError
   \<and> SMS_CONFIG (snd (sms_throttle ''guest'' bad_limit_world)) ''throttled_groups'' = None
   \<and> fst (throttle_definitions ''guest'' [''play'', ''all:100''] Map.empty bad_limit_world)
       = Inr [''all'' \<mapsto> 100]
   \<and> fst (sms bad_limit_items initial_world) = Inl ValueError
   \<and> SMS_CONFIG (snd (sms bad_limit_items initial_world)) ''blacklist'' = Some (CStr ''eve'')
   \<and> fst (sms bad_limit_items (snd (sms bad_limit_items initial_world)))
       = Inr (SMS_CONFIG (snd (sms bad_limit_items initial_world)))"
proof -
  have defs: "SMS_CONFIG bad_limit_world (''guest'' @ ''_throttle'')
                = Some (CStr ''play:abc, all:100'')"
    by (simp add: bad_limit_world_def bad_limit_items_def raw_value_def)
  have list: "as_list ''play:abc, all:100'' (CHR '','') = [''play:abc'', ''all:100'']"
    by (simp add: string_defs)
  then have token: "''play:abc'' \<in> set (as_list ''play:abc, all:100'' (CHR '',''))"
    by simp
  have split: "str_split (CHR '':'') ''play:abc'' = [''play'', ''abc'']"
    by simp
  then have parts: "length (str_split (CHR '':'') ''play:abc'') = 2"
    by simp
  have limit: "py_int (str_split (CHR '':'') ''play:abc'' ! 1) = None"
    by (simp add: string_defs)
  note concl = bad_limit_aborts [OF defs token parts limit]
  from concl list
  have loop: "fst (throttle_definitions ''guest'' [''play:abc'', ''all:100''] Map.empty
                    bad_limit_world) = Inl ValueError"
    by simp
  from concl have block: "fst (sms_throttle ''guest'' bad_limit_world) = Inl ValueError"
    by simp
  from concl have "SMS_CONFIG (snd (sms_throttle ''guest'' bad_limit_world))
                     = SMS_CONFIG bad_limit_world"
    by simp
  then have unset: "SMS_CONFIG (snd (sms_throttle ''guest'' bad_limit_world)) ''throttled_groups''
                      = None"
    by (simp add: bad_limit_world_def bad_limit_items_def example_items_def)
  have sibling: "fst (throttle_definitions ''guest'' [''play'', ''all:100''] Map.empty
                       bad_limit_world) = Inr [''all'' \<mapsto> 100]"
    by (simp add: prog_defs string_defs warn_def)
  have build: "fst (sms bad_limit_items initial_world) = Inl ValueError"
    by (simp add: bad_limit_items_def example_items_def initial_world_def prog_defs string_defs
          sms_defs)
  have blacklist: "SMS_CONFIG (snd (sms bad_limit_items initial_world)) ''blacklist''
                     = Some (CStr ''eve'')"
    by (simp add: bad_limit_items_def example_items_def initial_world_def prog_defs string_defs
          sms_defs)
  then have "SMS_CONFIG (snd (sms bad_limit_items initial_world)) \<noteq> Map.empty"
    by auto
  then have cached: "fst (sms bad_limit_items (snd (sms bad_limit_items initial_world)))
       = Inr (SMS_CONFIG (snd (sms bad_limit_items initial_world)))"
    by (simp add: sms_def)
  from defs list token split parts limit loop block unset sibling build blacklist cached
  show ?thesis by (intro conjI)
qed

section \<open>Locks\<close>

text \<open>
  C8, as stated, fails on the error paths: when \<^verbatim>\<open>readfp\<close> or \<^verbatim>\<open>write\<close> raises, the file is
  closed by the \<^verbatim>\<open>with\<close> block and no unlock has happened.
\<close>

theorem lock_release_counterexample:
  "fst (load_state corrupt_world) = Inl ParsingError
   \<and> trace (snd (load_state corrupt_world)) = [Open_read, Lock_shared, Read_file, Close]
   \<and> fst (update_state ''throttle'' (Repr Map.empty) full_disk_world) = Inl IOError
   \<and> trace (snd (update_state ''throttle'' (Repr Map.empty) full_disk_world))
       = [Open_write, Lock_exclusive, Close]"
  by (simp add: example_defs state_defs)

text \<open>
  C8, amended. When \<^verbatim>\<open>load_state\<close> or \<^verbatim>\<open>update_state\<close> returns, it has locked the file
  (shared for reading, exclusive for writing) and unlocked it before closing it; when it
  raises, it has locked the file and closed it without unlocking it.
\<close>

theorem lock_release_paths:
  "trace (snd (load_state w)) =
     trace w @ (if isl (fst (load_state w)) then [Open_read, Lock_shared, Read_file, Close]
                else [Open_read, Lock_shared, Read_file, Unlock, Close])
   \<and> trace (snd (update_state name v w)) =
     trace w @ (if isl (fst (update_state name v w)) then [Open_write, Lock_exclusive, Close]
                else [Open_write, Lock_exclusive, Write_file, Unlock, Close])"
  by (simp add: load_state_def update_state_def emit_def Let_def split: cfg_file.splits)

section \<open>The timestamp of the window\<close>

text \<open>
  C9. A start without microseconds is written without a fraction, and the format
  \<^verbatim>\<open>%Y-%m-%d %H:%M:%S.%f\<close> does not read it back: every match of the format has a dot, and
  the text has none.
\<close>

theorem zero_microsecond_never_parses:
  assumes "microsecond d = 0"
  shows "strptime (dt_str d) = Inl ValueError"
proof (cases "format_regex (dt_str d)")
  case Nil
  then show ?thesis by (simp add: strptime_def)
next
  case (Cons m ms)
  obtain gs r where "m = (gs, r)" by (cases m) auto
  with Cons have "(gs, r) \<in> set (format_regex (dt_str d))" by simp
  from format_regex_dot [OF this] dt_str_no_dot [OF assms] show ?thesis by simp
qed

text \<open>
  At midnight: the check resets the window and returns; the check ten seconds later raises
  \<open>ValueError\<close>. A start with microseconds is read back.
\<close>

theorem zero_microsecond_never_parses_witness:
  "microsecond midnight = 0
   \<and> dt_str midnight = ''2014-12-25 00:00:00''
   \<and> strptime (dt_str midnight) = Inl ValueError
   \<and> fst (is_throttle_exceeded midnight ''play'' ''bob'' example_world) = Inr (PBool False)
   \<and> fst (is_throttle_exceeded ten_past ''play'' ''bob''
            (snd (is_throttle_exceeded midnight ''play'' ''bob'' example_world))) = Inl ValueError
   \<and> strptime (dt_str ten_past) = Inr ten_past"
proof -
  have zero: "microsecond midnight = 0"
    by (simp add: midnight_def)
  note fails = zero_microsecond_never_parses [OF zero]
  have str: "dt_str midnight = ''2014-12-25 00:00:00''"
    by (simp add: example_defs datetime_defs)
  have first: "fst (is_throttle_exceeded midnight ''play'' ''bob'' example_world) = Inr (PBool False)"
    by (simp add: eval_defs)
  have second: "fst (is_throttle_exceeded ten_past ''play'' ''bob''
            (snd (is_throttle_exceeded midnight ''play'' ''bob'' example_world))) = Inl ValueError"
    by (simp add: eval_defs)
  have later: "strptime (dt_str ten_past) = Inr ten_past"
    by (simp add: example_defs string_defs regex_defs datetime_defs)
  from zero str fails first second later show ?thesis by (intro conjI)
qed

section \<open>The window\<close>

text \<open>
  When the state loads, the option evaluates to a window, the time limit is a number and
  the stored start parses (or none is stored, and then the start is the current time),
  the check resets the window exactly when the current time equals the start or is past
  the start plus the limit: the fresh window has the current time as its start and nothing
  else, it is written to the state file at once, and the limits are then evaluated on it.
  Otherwise the limits are evaluated on the stored window.
\<close>

lemma window_reset:
  assumes loaded: "load_state w = (Inr (), w1)"
    and stored: "fst (get_state ''throttle'' (Repr Map.empty) w1) = Inr (Repr throttle_state)"
    and limit: "SMS_CONFIG w ''throttle_time_limit_seconds'' = Some lim"
    and seconds: "int_of lim = Inr seconds"
    and start: "throttle_starttime now throttle_state = Inr start"
    and stop: "dt_add_seconds start seconds = Inr stop"
    and disk: "\<not> write_fails w"
  shows "(throttle_state TIMESTAMP = None \<longrightarrow> start = now)
     \<and> fresh_window now TIMESTAMP = Some (EStr (dt_str now))
     \<and> dom (fresh_window now) = {TIMESTAMP}
     \<and> stored_window (persisted (fresh_window now) w1) = Some (fresh_window now)
     \<and> is_throttle_exceeded now cmd user w =
         (if now = start \<or> dt_less stop now
          then apply_throttle cmd user (fresh_window now) (persisted (fresh_window now) w1)
          else apply_throttle cmd user throttle_state w1)"
proof -
  from start have 1: "throttle_state TIMESTAMP = None \<longrightarrow> start = now"
    by (auto simp: throttle_starttime_def)
  have 2: "fresh_window now TIMESTAMP = Some (EStr (dt_str now))"
    and 3: "dom (fresh_window now) = {TIMESTAMP}"
    by (simp_all add: fresh_window_def)
  have 4: "stored_window (persisted (fresh_window now) w1) = Some (fresh_window now)"
    by (simp add: stored_window_def persisted_def emit_def set_option_def)
  have 5: "is_throttle_exceeded now cmd user w =
         (if now = start \<or> dt_less stop now
          then apply_throttle cmd user (fresh_window now) (persisted (fresh_window now) w1)
          else apply_throttle cmd user throttle_state w1)"
    by (simp add: is_throttle_exceeded_def and_then_def
          load_window_eq [OF loaded stored limit seconds start stop disk])
  from 1 2 3 4 5 show ?thesis by (intro conjI)
qed

lemma window_reset_example:
  "\<exists>w1 start stop.
     load_state running_world = (Inr (), w1)
     \<and> fst (get_state ''throttle'' (Repr Map.empty) w1) = Inr (Repr running_window)
     \<and> SMS_CONFIG running_world ''throttle_time_limit_seconds'' = Some (CStr ''60'')
     \<and> int_of (CStr ''60'') = Inr 60
     \<and> throttle_starttime two_minutes_past running_window = Inr start
     \<and> dt_add_seconds start 60 = Inr stop
     \<and> \<not> write_fails running_world
     \<and> dt_less stop two_minutes_past
     \<and> is_throttle_exceeded two_minutes_past ''play'' ''bob'' running_world =
         apply_throttle ''play'' ''bob'' (fresh_window two_minutes_past)
           (persisted (fresh_window two_minutes_past) w1)"
proof -
  let ?w1 = "snd (load_state running_world)"
  let ?start = "\<lparr>year = 2014, month = 12, day = 25, hour = 0, minute = 0, second = 5,
                  microsecond = 1\<rparr>"
  let ?stop = "\<lparr>year = 2014, month = 12, day = 25, hour = 0, minute = 1, second = 5,
                 microsecond = 1\<rparr>"
  have loaded: "load_state running_world = (Inr (), ?w1)"
    by (simp add: example_defs state_defs)
  have stored: "fst (get_state ''throttle'' (Repr Map.empty) ?w1) = Inr (Repr running_window)"
    by (simp add: example_defs state_defs)
  have limit: "SMS_CONFIG running_world ''throttle_time_limit_seconds'' = Some (CStr ''60'')"
    by (simp add: example_defs)
  have seconds: "int_of (CStr ''60'') = Inr 60"
    by (simp add: int_of_def string_defs)
  have start: "throttle_starttime two_minutes_past running_window = Inr ?start"
    by (simp add: example_defs throttle_starttime_def TIMESTAMP_def regex_defs string_defs
          is_leap_def)
  have stop: "dt_add_seconds ?start 60 = Inr ?stop"
    by (simp add: datetime_defs)
  have disk: "\<not> write_fails running_world"
    by (simp add: example_defs)
  have past: "dt_less ?stop two_minutes_past"
    by (simp add: example_defs datetime_defs)
  from window_reset [OF loaded stored limit seconds start stop disk, of "''play''" "''bob''"] past
  have "is_throttle_exceeded two_minutes_past ''play'' ''bob'' running_world =
         apply_throttle ''play'' ''bob'' (fresh_window two_minutes_past)
           (persisted (fresh_window two_minutes_past) ?w1)"
    by simp
  with loaded stored limit seconds start stop disk past show ?thesis
    by (intro exI conjI)
qed

text \<open>
  C3. The claim holds where the stored start parses, and the code misses it for a start
  without microseconds, which is the start of every window reset at such a time: the text
  \<^verbatim>\<open>str()\<close> has written has no fraction, \<^verbatim>\<open>strptime\<close> raises \<open>ValueError\<close> before the times
  are compared, and the check raises at every time, also past the end of the window. The
  window is not reset and the state file stays as it is.
\<close>

theorem expired_window_not_reset:
  assumes loaded: "load_state w = (Inr (), w1)"
    and stored: "fst (get_state ''throttle'' (Repr Map.empty) w1) = Inr (Repr throttle_state)"
    and limit: "SMS_CONFIG w ''throttle_time_limit_seconds'' = Some lim"
    and start: "throttle_state TIMESTAMP = Some (EStr (dt_str d))"
    and zero: "microsecond d = 0"
  shows "is_throttle_exceeded now cmd user w = (Inl ValueError, w1)
       \<and> state_file w1 = state_file w"
proof -
  from load_state_Inr [OF loaded] limit
  have cfg: "cfg_get ''throttle_time_limit_seconds'' w1 = (Inr lim, w1)"
    by (simp add: cfg_get_def)
  from start strptime_no_dot [OF dt_str_no_dot [OF zero]]
  have st: "throttle_starttime now throttle_state = Inl ValueError"
    by (simp add: throttle_starttime_def)
  have "load_window now w = (Inl ValueError, w1)"
    by (simp add: load_window_def and_then_def loaded get_state_fst [OF stored] lift_def
          literal_eval_def cfg st)
  then have 1: "is_throttle_exceeded now cmd user w = (Inl ValueError, w1)"
    by (simp add: is_throttle_exceeded_def and_then_def)
  from loaded have 2: "state_file w1 = state_file w"
    by (auto simp: load_state_def emit_def split: cfg_file.splits)
  from 1 2 show ?thesis by (intro conjI)
qed

text \<open>
  The check at midnight resets the window and writes \<open>stale_window\<close>. Two minutes later
  the window of sixty seconds has expired; the check raises and the state file still has
  the window of midnight.
\<close>

theorem expired_window_not_reset_witness:
  "fst (is_throttle_exceeded midnight ''play'' ''bob'' example_world) = Inr (PBool False)
   \<and> stored_window (snd (is_throttle_exceeded midnight ''play'' ''bob'' example_world))
       = Some stale_window
   \<and> load_state stale_world = (Inr (), snd (load_state stale_world))
   \<and> fst (get_state ''throttle'' (Repr Map.empty) (snd (load_state stale_world)))
       = Inr (Repr stale_window)
   \<and> SMS_CONFIG stale_world ''throttle_time_limit_seconds'' = Some (CStr ''60'')
   \<and> stale_window TIMESTAMP = Some (EStr (dt_str midnight))
   \<and> dt_str midnight = ''2014-12-25 00:00:00''
   \<and> microsecond midnight = 0
   \<and> dt_add_seconds midnight 60 =
       Inr \<lparr>year = 2014, month = 12, day = 25, hour = 0, minute = 1, second = 0, microsecond = 0\<rparr>
   \<and> dt_less \<lparr>year = 2014, month = 12, day = 25, hour = 0, minute = 1, second = 0, microsecond = 0\<rparr>
        two_minutes_past
   \<and> is_throttle_exceeded two_minutes_past ''play'' ''bob'' stale_world
       = (Inl ValueError, snd (load_state stale_world))
   \<and> stored_window (snd (is_throttle_exceeded two_minutes_past ''play'' ''bob'' stale_world))
       = Some stale_window
   \<and> fst (is_throttle_exceeded two_minutes_past ''play'' ''bob''
            (snd (is_throttle_exceeded midnight ''play'' ''bob'' example_world))) = Inl ValueError"
proof -
  let ?w1 = "snd (load_state stale_world)"
  have first: "fst (is_throttle_exceeded midnight ''play'' ''bob'' example_world) = Inr (PBool False)"
    by (simp add: eval_defs)
  have wrote: "stored_window (snd (is_throttle_exceeded midnight ''play'' ''bob'' example_world))
       = Some stale_window"
    by (simp add: eval_defs observe_defs)
  have loaded: "load_state stale_world = (Inr (), ?w1)"
    by (simp add: example_defs state_defs)
  have stored: "fst (get_state ''throttle'' (Repr Map.empty) ?w1) = Inr (Repr stale_window)"
    by (simp add: example_defs state_defs)
  have limit: "SMS_CONFIG stale_world ''throttle_time_limit_seconds'' = Some (CStr ''60'')"
    by (simp add: example_defs)
  have start: "stale_window TIMESTAMP = Some (EStr (dt_str midnight))"
    by (simp add: stale_window_def fresh_window_def TIMESTAMP_def)
  have str: "dt_str midnight = ''2014-12-25 00:00:00''"
    by (simp add: example_defs datetime_defs)
  have zero: "microsecond midnight = 0"
    by (simp add: midnight_def)
  have stop: "dt_add_seconds midnight 60 =
       Inr \<lparr>year = 2014, month = 12, day = 25, hour = 0, minute = 1, second = 0, microsecond = 0\<rparr>"
    by (simp add: example_defs datetime_defs)
  have past: "dt_less \<lparr>year = 2014, month = 12, day = 25, hour = 0, minute = 1, second = 0, microsecond = 0\<rparr>
        two_minutes_past"
    by (simp add: example_defs datetime_defs)
  note concl = expired_window_not_reset [OF loaded stored limit start zero,
      of two_minutes_past "''play''" "''bob''"]
  from concl have raised: "is_throttle_exceeded two_minutes_past ''play'' ''bob'' stale_world
       = (Inl ValueError, ?w1)"
    by (rule conjunct1)
  from concl have "state_file (snd (is_throttle_exceeded two_minutes_past ''play'' ''bob'' stale_world))
       = state_file stale_world"
    by simp
  then have kept: "stored_window (snd (is_throttle_exceeded two_minutes_past ''play'' ''bob'' stale_world))
       = Some stale_window"
    by (simp add: stored_window_def stale_world_def STATE_SECTION_def)
  have again: "fst (is_throttle_exceeded two_minutes_past ''play'' ''bob''
            (snd (is_throttle_exceeded midnight ''play'' ''bob'' example_world))) = Inl ValueError"
    by (simp add: eval_defs)
  from first wrote loaded stored limit start str zero stop past raised kept again
  show ?thesis by (intro conjI)
qed

section \<open>The governing group\<close>

text \<open>
  C4, amended. When the configuration is as \<^verbatim>\<open>sms()\<close> builds it (a list of groups, a
  dictionary of throttle definitions, a user list for every group up to the governing
  one), the bucket is that of the first group, in the order of declaration, of which the
  user is a member and whose throttle definition has a limit other than \<open>-1\<close> for \<open>all\<close> or
  for the command, with the limits of that group; the groups after it are not looked at,
  so nothing is asked of them. When no group governs, the check returns \<^verbatim>\<open>False\<close> and leaves
  the window and the state as they are. A governing group with the empty name is left out.
\<close>

theorem governing_group_decides:
  assumes groups: "SMS_CONFIG w ''groups'' = Some (CList groups)"
    and tgs: "SMS_CONFIG w ''throttled_groups'' = Some (CThrottled tgs)"
    and listed: "list_all (users_listed (SMS_CONFIG w))
                   (takeWhile (\<lambda>g. \<not> governs tgs (SMS_CONFIG w) user cmd g) groups)"
    and named: "find (governs tgs (SMS_CONFIG w) user cmd) groups \<noteq> Some []"
  shows "apply_throttle cmd user throttle_state w =
           (case governing_group tgs (SMS_CONFIG w) user cmd groups of
              (None, all_limit, cmd_limit) \<Rightarrow> (Inr (PBool False), w)
            | (Some grp, all_limit, cmd_limit) \<Rightarrow>
                check_limits cmd grp all_limit cmd_limit throttle_state w)
     \<and> (\<forall>pre grp post.
           groups = pre @ grp # post \<and> (\<forall>g\<in>set pre. \<not> governs tgs (SMS_CONFIG w) user cmd g)
             \<and> governs tgs (SMS_CONFIG w) user cmd grp \<longrightarrow>
           (\<exists>tc. tgs grp = Some tc
              \<and> governing_group tgs (SMS_CONFIG w) user cmd groups =
                  (Some grp, limit_of tc ''all'', limit_of tc cmd)))
     \<and> ((\<forall>g\<in>set groups. \<not> governs tgs (SMS_CONFIG w) user cmd g) \<longrightarrow>
           governing_group tgs (SMS_CONFIG w) user cmd groups = (None, - 1, - 1))"
proof -
  obtain tg a c where gg: "governing_group tgs (SMS_CONFIG w) user cmd groups = (tg, a, c)"
    by (cases "governing_group tgs (SMS_CONFIG w) user cmd groups") auto
  have found: "find_throttled_group cmd user groups (- 1) (- 1) w = (Inr (tg, a, c), w)"
    using find_throttled_group_eq [OF tgs listed] gg by simp
  have "tg \<noteq> Some []"
    using governing_group_Some [of tgs "SMS_CONFIG w" user cmd groups "[]" a c] gg named
    by auto
  then have 1: "apply_throttle cmd user throttle_state w =
           (case governing_group tgs (SMS_CONFIG w) user cmd groups of
              (None, all_limit, cmd_limit) \<Rightarrow> (Inr (PBool False), w)
            | (Some grp, all_limit, cmd_limit) \<Rightarrow>
                check_limits cmd grp all_limit cmd_limit throttle_state w)"
    using groups found gg
    by (simp add: apply_throttle_def and_then_def cfg_get_def lift_def py_iter_def ret_def
          split: option.splits)
  show ?thesis
    using 1 governing_group_first_of [of _ tgs "SMS_CONFIG w" user cmd]
      governing_group_none [of groups tgs "SMS_CONFIG w" user cmd]
    by blast
qed

theorem governing_group_decides_witness:
  "SMS_CONFIG running_world ''groups'' = Some (CList [''vip'', ''guest''])
   \<and> (\<exists>tgs. SMS_CONFIG running_world ''throttled_groups'' = Some (CThrottled tgs)
        \<and> list_all (users_listed (SMS_CONFIG running_world))
             (takeWhile (\<lambda>g. \<not> governs tgs (SMS_CONFIG running_world) ''alice'' ''play'' g)
                [''vip'', ''guest''])
        \<and> find (governs tgs (SMS_CONFIG running_world) ''alice'' ''play'') [''vip'', ''guest'']
             \<noteq> Some []
        \<and> governs tgs (SMS_CONFIG running_world) ''alice'' ''play'' ''vip''
        \<and> governs tgs (SMS_CONFIG running_world) ''alice'' ''play'' ''guest''
        \<and> governing_group tgs (SMS_CONFIG running_world) ''alice'' ''play'' [''vip'', ''guest'']
             = (Some ''vip'', 5, 1))
   \<and> apply_throttle ''play'' ''alice'' running_window running_world =
       check_limits ''play'' ''vip'' 5 1 running_window running_world"
proof -
  let ?tgs = "[''vip'' \<mapsto> [''all'' \<mapsto> 5, ''play'' \<mapsto> 1], ''guest'' \<mapsto> [''all'' \<mapsto> (100::int)]]"
  have groups: "SMS_CONFIG running_world ''groups'' = Some (CList [''vip'', ''guest''])"
    by (simp add: example_defs)
  have tgs: "SMS_CONFIG running_world ''throttled_groups'' = Some (CThrottled ?tgs)"
    by (simp add: example_defs)
  have vip: "governs ?tgs (SMS_CONFIG running_world) ''alice'' ''play'' ''vip''"
    by (simp add: example_defs governs_defs)
  have guest: "governs ?tgs (SMS_CONFIG running_world) ''alice'' ''play'' ''guest''"
    by (simp add: example_defs governs_defs)
  have listed: "list_all (users_listed (SMS_CONFIG running_world))
             (takeWhile (\<lambda>g. \<not> governs ?tgs (SMS_CONFIG running_world) ''alice'' ''play'' g)
                [''vip'', ''guest''])"
    using vip by simp
  have named: "find (governs ?tgs (SMS_CONFIG running_world) ''alice'' ''play'') [''vip'', ''guest'']
             \<noteq> Some []"
    using vip by simp
  have gg: "governing_group ?tgs (SMS_CONFIG running_world) ''alice'' ''play'' [''vip'', ''guest'']
             = (Some ''vip'', 5, 1)"
    using vip by (simp add: governing_group_def limit_of_def)
  from governing_group_decides [OF groups tgs listed named, of running_window] gg
  have "apply_throttle ''play'' ''alice'' running_window running_world =
       check_limits ''play'' ''vip'' 5 1 running_window running_world"
    by simp
  with groups tgs listed named vip guest gg show ?thesis
    by (intro conjI exI)
qed

text \<open>
  C4, as stated, fails for the limit \<open>-1\<close>, which the code takes for no limit: the user is
  a member of the first group, whose throttle definition has a limit for \<open>all\<close>, and the
  second group is the one found.
\<close>

theorem governing_group_sentinel_counterexample:
  "fst (sms sentinel_items initial_world) = Inr (SMS_CONFIG (snd (sms sentinel_items initial_world)))
   \<and> SMS_CONFIG (snd (sms sentinel_items initial_world)) ''groups''
       = Some (CList [''first'', ''second''])
   \<and> SMS_CONFIG (snd (sms sentinel_items initial_world)) ''first_users''
       = Some (CList [''alice''])
   \<and> (case SMS_CONFIG (snd (sms sentinel_items initial_world)) ''throttled_groups'' of
         Some (CThrottled tgs) \<Rightarrow>
           (case tgs ''first'' of Some tc \<Rightarrow> tc ''all'' = Some (- 1) | None \<Rightarrow> False)
       | _ \<Rightarrow> False)
   \<and> fst (find_throttled_group ''play'' ''alice'' [''first'', ''second''] (- 1) (- 1)
            (snd (sms sentinel_items initial_world))) = Inr (Some ''second'', 100, - 1)"
  by (simp add: sentinel_items_def initial_world_def prog_defs string_defs sms_defs
        throttled_commands_of_def Let_def)

section \<open>Writing the window back\<close>




section \<open>The order of the two limits\<close>

text \<open>
  C2. When the governing group has both limits, the count for \<open>all\<close> is below its limit and
  the count for the command has reached its limit, the check returns \<^verbatim>\<open>False\<close>: the block for
  \<open>all\<close> has set the flag to \<^verbatim>\<open>False\<close>, and the block for the command leaves it. The count
  for \<open>all\<close> is incremented and written, the count for the command is not. Without a limit
  for \<open>all\<close> the same counts give the initial \<open>-1\<close> of the flag, which a caller takes for
  true.
\<close>

theorem command_limit_reached_not_reported:
  assumes counts: "group_throttle_state_of throttled_group throttle_state = EDict d"
    and reached: "cmd_limit \<noteq> - 1 \<and> \<not> count_of d cmd < cmd_limit"
    and disk: "\<not> write_fails w"
  shows "(all_limit \<noteq> - 1 \<and> count_of d ''all'' < all_limit \<longrightarrow>
           check_limits cmd throttled_group all_limit cmd_limit throttle_state w =
             (Inr (PBool False),
              persisted (throttle_state(throttled_group \<mapsto>
                           EDict (d(''all'' \<mapsto> count_of d ''all'' + 1)))) w))
       \<and> check_limits cmd throttled_group (- 1) cmd_limit throttle_state w =
             (Inr (PInt (- 1)), persisted throttle_state w)"
  using reached
  by (simp add: check_limits_EDict [OF counts] Let_def and_then_def update_state_ok [OF disk]
        ret_def persisted_def)

theorem command_limit_reached_not_reported_witness:
  "group_throttle_state_of ''vip'' running_window = EDict [''all'' \<mapsto> 1, ''play'' \<mapsto> 1]
   \<and> ((1::int) \<noteq> - 1 \<and> \<not> count_of [''all'' \<mapsto> 1, ''play'' \<mapsto> 1] ''play'' < 1)
   \<and> \<not> write_fails running_world
   \<and> ((5::int) \<noteq> - 1 \<and> count_of [''all'' \<mapsto> 1, ''play'' \<mapsto> 1] ''all'' < 5)
   \<and> check_limits ''play'' ''vip'' 5 1 running_window running_world =
        (Inr (PBool False),
         persisted (running_window(''vip'' \<mapsto>
            EDict ([''all'' \<mapsto> 1, ''play'' \<mapsto> 1]
                     (''all'' \<mapsto> count_of [''all'' \<mapsto> 1, ''play'' \<mapsto> 1] ''all'' + 1))))
           running_world)
   \<and> check_limits ''play'' ''vip'' (- 1) 1 running_window running_world =
        (Inr (PInt (- 1)), persisted running_window running_world)
   \<and> truthy (PInt (- 1))
   \<and> fst (is_throttle_exceeded ten_past ''play'' ''alice'' running_world) = Inr (PBool False)
   \<and> stored_count (snd (is_throttle_exceeded ten_past ''play'' ''alice'' running_world))
        ''vip'' ''all'' = Some 2
   \<and> stored_count (snd (is_throttle_exceeded ten_past ''play'' ''alice'' running_world))
        ''vip'' ''play'' = Some 1"
proof -
  let ?d = "[''all'' \<mapsto> 1, ''play'' \<mapsto> (1::int)]"
  have counts: "group_throttle_state_of ''vip'' running_window = EDict ?d"
    by (simp add: example_defs group_throttle_state_of_def TIMESTAMP_def)
  have reached: "(1::int) \<noteq> - 1 \<and> \<not> count_of ?d ''play'' < 1"
    by (simp add: count_of_def)
  have disk: "\<not> write_fails running_world"
    by (simp add: example_defs)
  have below: "(5::int) \<noteq> - 1 \<and> count_of ?d ''all'' < 5"
    by (simp add: count_of_def)
  note concl = command_limit_reached_not_reported [OF counts reached disk, of 5]
  from concl below have both: "check_limits ''play'' ''vip'' 5 1 running_window running_world =
        (Inr (PBool False),
         persisted (running_window(''vip'' \<mapsto> EDict (?d(''all'' \<mapsto> count_of ?d ''all'' + 1))))
           running_world)"
    by blast
  from concl have only: "check_limits ''play'' ''vip'' (- 1) 1 running_window running_world =
        (Inr (PInt (- 1)), persisted running_window running_world)"
    by blast
  have t: "truthy (PInt (- 1))"
    by (simp add: truthy_def)
  have verdict: "fst (is_throttle_exceeded ten_past ''play'' ''alice'' running_world)
                   = Inr (PBool False)"
    by (simp add: eval_defs)
  have all_count: "stored_count (snd (is_throttle_exceeded ten_past ''play'' ''alice'' running_world))
        ''vip'' ''all'' = Some 2"
    by (simp add: eval_defs observe_defs)
  have play_count: "stored_count (snd (is_throttle_exceeded ten_past ''play'' ''alice'' running_world))
        ''vip'' ''play'' = Some 1"
    by (simp add: eval_defs observe_defs)
  from counts reached [THEN conjunct1] reached [THEN conjunct2] disk below [THEN conjunct1]
    below [THEN conjunct2] both only t verdict all_count play_count
  show ?thesis by (intro conjI)
qed

section \<open>A state option that does not evaluate\<close>




end
